theory Spec2Isabelle
  imports Complex_Main
begin

section \<open>Tensors and errors\<close>

text \<open>
  The notebook computes with torch tensors of 32-bit floats. The embedding computes over
  the real numbers: rounding, NaN and overflow are not modelled. The one non-finite value
  the source writes itself, \<^verbatim>\<open>float("-inf")\<close> in the causal mask, is modelled by
  \<open>NegInf\<close>.

  A tensor carries its shape beside its data, as a torch tensor does, so that a shape is
  known for a tensor with no elements too: the shape checks of the model read the shape,
  the arithmetic reads the data.
\<close>

datatype error = RuntimeError | IndexError | KeyError

definition and_then :: "error + 'a \<Rightarrow> ('a \<Rightarrow> error + 'b) \<Rightarrow> error + 'b" where
  "and_then r f = (case r of Inl e \<Rightarrow> Inl e | Inr x \<Rightarrow> f x)"

fun sequence :: "(error + 'a) list \<Rightarrow> error + 'a list" where
  "sequence [] = Inr []"
| "sequence (r # rs) =
     (case r of Inl e \<Rightarrow> Inl e
      | Inr x \<Rightarrow> (case sequence rs of Inl e \<Rightarrow> Inl e | Inr xs \<Rightarrow> Inr (x # xs)))"

datatype xreal = Fin real | NegInf

text \<open>A tensor of shape (B, T, D): \<open>B = length (data3 x)\<close>.\<close>

record 'a tensor3 =
  dim1 :: nat
  dim2 :: nat
  data3 :: "'a list list list"

text \<open>
  A tensor of shape (N, D): \<open>N = length (data2 x)\<close>. The context is an
  \<open>int tensor2\<close> of shape (B, T).
\<close>

record 'a tensor2 =
  cols2 :: nat
  data2 :: "'a list list"

definition wf3 :: "'a tensor3 \<Rightarrow> bool" where
  "wf3 x = list_all (\<lambda>r. length r = dim1 x \<and> list_all (\<lambda>v. length v = dim2 x) r) (data3 x)"

definition wf2 :: "'a tensor2 \<Rightarrow> bool" where
  "wf2 x = list_all (\<lambda>v. length v = cols2 x) (data2 x)"

definition has_shape3 :: "nat \<Rightarrow> nat \<Rightarrow> nat \<Rightarrow> 'a tensor3 \<Rightarrow> bool" where
  "has_shape3 B T D x = (length (data3 x) = B \<and> dim1 x = T \<and> dim2 x = D \<and> wf3 x)"

section \<open>nn.Linear, nn.LayerNorm, nn.Embedding, nn.Dropout, nn.ReLU, softmax\<close>

text \<open>
  The parameters a torch constructor draws at random are read from an initialiser
  \<open>g\<close>, a function from a parameter's path to its value. The constructors fix the
  shapes; the theorems below are stated for every module of these shapes, whatever its
  weights, so that a trained or loaded model is covered too.
\<close>

type_synonym init = "nat list \<Rightarrow> real"

definition sub :: "nat \<Rightarrow> init \<Rightarrow> init" where
  "sub k g = (\<lambda>p. g (k # p))"

record Linear =
  in_features :: nat
  out_features :: nat
  lin_weight :: "real list list"
  lin_bias :: "real list option"

text \<open>\<^verbatim>\<open>nn.Linear(i, o, bias)\<close>: torch refuses a negative size.\<close>

definition Linear_init :: "int \<Rightarrow> int \<Rightarrow> bool \<Rightarrow> init \<Rightarrow> error + Linear" where
  "Linear_init i o' has_bias g =
     (if i < 0 \<or> o' < 0 then Inl RuntimeError
      else Inr \<lparr>in_features = nat i, out_features = nat o',
                lin_weight = map (\<lambda>r. map (\<lambda>c. g [0, r, c]) [0..<nat i]) [0..<nat o'],
                lin_bias = (if has_bias then Some (map (\<lambda>r. g [1, r]) [0..<nat o']) else None)\<rparr>)"

definition dot :: "real list \<Rightarrow> real list \<Rightarrow> real" where
  "dot u v = sum_list (map2 (*) u v)"

text \<open>One position of \<^verbatim>\<open>x @ W.T + b\<close>.\<close>

definition affine :: "Linear \<Rightarrow> real list \<Rightarrow> real list" where
  "affine L v =
     (case lin_bias L of
        None \<Rightarrow> map (\<lambda>w. dot w v) (lin_weight L)
      | Some b \<Rightarrow> map2 (+) (map (\<lambda>w. dot w v) (lin_weight L)) b)"

definition Linear_forward :: "Linear \<Rightarrow> real tensor3 \<Rightarrow> error + real tensor3" where
  "Linear_forward L x =
     (if dim2 x \<noteq> in_features L then Inl RuntimeError
      else Inr \<lparr>dim1 = dim1 x, dim2 = out_features L,
                data3 = map (map (affine L)) (data3 x)\<rparr>)"

record LayerNorm =
  normalized_shape :: nat
  ln_weight :: "real list"
  ln_bias :: "real list"
  eps :: real

text \<open>\<^verbatim>\<open>nn.LayerNorm(d)\<close>: weight ones, bias zeros, eps 1e-5.\<close>

definition LayerNorm_init :: "int \<Rightarrow> error + LayerNorm" where
  "LayerNorm_init d =
     (if d < 0 then Inl RuntimeError
      else Inr \<lparr>normalized_shape = nat d, ln_weight = replicate (nat d) 1,
                ln_bias = replicate (nat d) 0, eps = 1 / 100000\<rparr>)"

definition mean :: "real list \<Rightarrow> real" where
  "mean v = sum_list v / real (length v)"

definition variance :: "real list \<Rightarrow> real" where
  "variance v = sum_list (map (\<lambda>x. (x - mean v)\<^sup>2) v) / real (length v)"

definition layer_norm :: "LayerNorm \<Rightarrow> real list \<Rightarrow> real list" where
  "layer_norm N v =
     map (\<lambda>(x, w, b). (x - mean v) / sqrt (variance v + eps N) * w + b)
       (zip v (zip (ln_weight N) (ln_bias N)))"

definition LayerNorm_forward :: "LayerNorm \<Rightarrow> real tensor3 \<Rightarrow> error + real tensor3" where
  "LayerNorm_forward N x =
     (if dim2 x \<noteq> normalized_shape N then Inl RuntimeError
      else Inr \<lparr>dim1 = dim1 x, dim2 = dim2 x, data3 = map (map (layer_norm N)) (data3 x)\<rparr>)"

record Embedding =
  num_embeddings :: nat
  embedding_dim :: nat
  emb_weight :: "real list list"

definition Embedding_init :: "int \<Rightarrow> int \<Rightarrow> init \<Rightarrow> error + Embedding" where
  "Embedding_init n d g =
     (if n < 0 \<or> d < 0 then Inl RuntimeError
      else Inr \<lparr>num_embeddings = nat n, embedding_dim = nat d,
                emb_weight = map (\<lambda>r. map (\<lambda>c. g [r, c]) [0..<nat d]) [0..<nat n]\<rparr>)"

text \<open>An index outside \<open>[0, num_embeddings)\<close> raises IndexError; a negative one does not wrap.\<close>

definition lookup :: "Embedding \<Rightarrow> int \<Rightarrow> error + real list" where
  "lookup E i =
     (if i < 0 \<or> int (num_embeddings E) \<le> i then Inl IndexError
      else Inr (emb_weight E ! nat i))"

text \<open>The embedding of a 1-D index tensor, shape (N) to (N, D).\<close>

definition Embedding_forward1 :: "Embedding \<Rightarrow> int list \<Rightarrow> error + real tensor2" where
  "Embedding_forward1 E idx =
     and_then (sequence (map (lookup E) idx))
       (\<lambda>rows. Inr \<lparr>cols2 = embedding_dim E, data2 = rows\<rparr>)"

text \<open>The embedding of a 2-D index tensor, shape (B, T) to (B, T, D).\<close>

definition Embedding_forward2 :: "Embedding \<Rightarrow> int tensor2 \<Rightarrow> error + real tensor3" where
  "Embedding_forward2 E c =
     and_then (sequence (map (\<lambda>r. sequence (map (lookup E) r)) (data2 c)))
       (\<lambda>rows. Inr \<lparr>dim1 = cols2 c, dim2 = embedding_dim E, data3 = rows\<rparr>)"

text \<open>
  \<^verbatim>\<open>nn.Dropout(p)\<close>. In training mode every element is zeroed with probability
  \<open>p\<close> and the others are scaled by \<open>1 / (1 - p)\<close>; which elements are kept is read
  from \<open>keep\<close>, the random draws of this call, by the element's position. In inference
  mode the layer is the identity.
\<close>

type_synonym dropmask = "nat \<Rightarrow> nat \<Rightarrow> nat \<Rightarrow> bool"

definition dropout_vec :: "real \<Rightarrow> (nat \<Rightarrow> bool) \<Rightarrow> real list \<Rightarrow> real list" where
  "dropout_vec p keep v = map (\<lambda>(d, x). if keep d then x / (1 - p) else 0) (enumerate 0 v)"

definition dropout_seq :: "real \<Rightarrow> (nat \<Rightarrow> nat \<Rightarrow> bool) \<Rightarrow> real list list \<Rightarrow> real list list" where
  "dropout_seq p keep r = map (\<lambda>(t, v). dropout_vec p (keep t) v) (enumerate 0 r)"

definition Dropout_forward :: "real \<Rightarrow> bool \<Rightarrow> dropmask \<Rightarrow> real tensor3 \<Rightarrow> real tensor3" where
  "Dropout_forward p training keep x =
     (if training
      then x\<lparr>data3 := map (\<lambda>(b, r). dropout_seq p (keep b) r) (enumerate 0 (data3 x))\<rparr>
      else x)"

definition relu :: "real \<Rightarrow> real" where
  "relu x = max 0 x"

definition ReLU_forward :: "real tensor3 \<Rightarrow> real tensor3" where
  "ReLU_forward x = x\<lparr>data3 := map (map (map relu)) (data3 x)\<rparr>"

fun xexp :: "xreal \<Rightarrow> real" where
  "xexp (Fin x) = exp x"
| "xexp NegInf = 0"

text \<open>
  \<^verbatim>\<open>softmax(dim=-1)\<close> of one row, over the reals. torch subtracts the row's
  maximum before it exponentiates, which over the reals changes nothing. The rounding
  and the overflow of 32-bit floats are not modelled: the row torch returns sums to 1
  only up to rounding, and is NaN when a score has overflowed.
\<close>

definition softmax :: "xreal list \<Rightarrow> real list" where
  "softmax xs = map (\<lambda>x. xexp x / sum_list (map xexp xs)) xs"

definition softmax3 :: "xreal tensor3 \<Rightarrow> real tensor3" where
  "softmax3 x = \<lparr>dim1 = dim1 x, dim2 = dim2 x, data3 = map (map softmax) (data3 x)\<rparr>"

definition softmax2 :: "real tensor2 \<Rightarrow> real tensor2" where
  "softmax2 x = \<lparr>cols2 = cols2 x, data2 = map (\<lambda>r. softmax (map Fin r)) (data2 x)\<rparr>"

section \<open>Tensor operations of the attention head\<close>

text \<open>\<^verbatim>\<open>torch.transpose(x, 1, 2)\<close>: shape (B, T, D) to (B, D, T).\<close>

definition transpose12 :: "real tensor3 \<Rightarrow> real tensor3" where
  "transpose12 x =
     \<lparr>dim1 = dim2 x, dim2 = dim1 x,
      data3 = map (\<lambda>m. map (\<lambda>k. map (\<lambda>row. row ! k) m) [0..<dim2 x]) (data3 x)\<rparr>"

text \<open>
  \<^verbatim>\<open>x @ y\<close> on 3-D tensors, the batched matrix product of shapes (B, T, K) and
  (B, K, N); torch raises when the inner sizes differ. (The model calls it on two
  tensors of one batch size only; torch would broadcast a batch of size 1.)
\<close>

definition matmul :: "real tensor3 \<Rightarrow> real tensor3 \<Rightarrow> error + real tensor3" where
  "matmul x y =
     (if length (data3 x) \<noteq> length (data3 y) \<or> dim2 x \<noteq> dim1 y then Inl RuntimeError
      else Inr \<lparr>dim1 = dim1 x, dim2 = dim2 y,
                data3 = map2 (\<lambda>a b. map (\<lambda>row. map (\<lambda>j. \<Sum>k\<leftarrow>[0..<dim2 x]. row ! k * b ! k ! j)
                                               [0..<dim2 y]) a)
                          (data3 x) (data3 y)\<rparr>)"

definition div_scalar :: "real tensor3 \<Rightarrow> real \<Rightarrow> real tensor3" where
  "div_scalar x c = x\<lparr>data3 := map (map (map (\<lambda>s. s / c))) (data3 x)\<rparr>"

definition ones :: "nat \<Rightarrow> nat \<Rightarrow> real tensor2" where
  "ones n m = \<lparr>cols2 = m, data2 = replicate n (replicate m 1)\<rparr>"

text \<open>\<^verbatim>\<open>torch.tril\<close>: the entries above the diagonal become 0.\<close>

definition tril :: "real tensor2 \<Rightarrow> real tensor2" where
  "tril m =
     m\<lparr>data2 := map (\<lambda>(i, row). map (\<lambda>(j, x). if j \<le> i then x else 0) (enumerate 0 row))
                    (enumerate 0 (data2 m))\<rparr>"

text \<open>\<^verbatim>\<open>mask == 0\<close>.\<close>

definition eq_zero :: "real tensor2 \<Rightarrow> bool tensor2" where
  "eq_zero m = \<lparr>cols2 = cols2 m, data2 = map (map (\<lambda>x. x = 0)) (data2 m)\<rparr>"

text \<open>
  \<^verbatim>\<open>scores.masked_fill(mask, value)\<close> with a (T, T) mask broadcast over the batch
  of a (B, T, T) tensor.
\<close>

definition masked_fill :: "real tensor3 \<Rightarrow> bool tensor2 \<Rightarrow> xreal \<Rightarrow> xreal tensor3" where
  "masked_fill x m v =
     \<lparr>dim1 = dim1 x, dim2 = dim2 x,
      data3 = map (\<lambda>a. map2 (\<lambda>row mrow. map2 (\<lambda>s b. if b then v else Fin s) row mrow) a (data2 m))
                (data3 x)\<rparr>"

section \<open>SingleHeadAttention\<close>

record SingleHeadAttention =
  key_layer :: Linear
  query_layer :: Linear
  value_layer :: Linear

definition SingleHeadAttention_init :: "int \<Rightarrow> int \<Rightarrow> init \<Rightarrow> error + SingleHeadAttention" where
  "SingleHeadAttention_init model_dim head_size g =
     and_then (Linear_init model_dim head_size False (sub 0 g)) (\<lambda>k.
     and_then (Linear_init model_dim head_size False (sub 1 g)) (\<lambda>q.
     and_then (Linear_init model_dim head_size False (sub 2 g)) (\<lambda>v.
     Inr \<lparr>key_layer = k, query_layer = q, value_layer = v\<rparr>)))"

text \<open>
  The forward pass up to the softmax: the attention weights \<^verbatim>\<open>scores\<close>, of shape
  (B, T, T), and \<^verbatim>\<open>V\<close>.
\<close>

definition attention_weights ::
  "SingleHeadAttention \<Rightarrow> real tensor3 \<Rightarrow> error + real tensor3 \<times> real tensor3" where
  "attention_weights h embedded =
     and_then (Linear_forward (key_layer h) embedded) (\<lambda>K.
     and_then (Linear_forward (query_layer h) embedded) (\<lambda>Q.
     and_then (Linear_forward (value_layer h) embedded) (\<lambda>V.
     let T = dim1 K; A = dim2 K in
     and_then (matmul Q (transpose12 K)) (\<lambda>QK.
     let scores = div_scalar QK (sqrt (real A));
         mask = tril (ones T T);
         scores = masked_fill scores (eq_zero mask) NegInf;
         scores = softmax3 scores
     in Inr (scores, V)))))"

definition SingleHeadAttention_forward ::
  "SingleHeadAttention \<Rightarrow> real tensor3 \<Rightarrow> error + real tensor3" where
  "SingleHeadAttention_forward h embedded =
     and_then (attention_weights h embedded) (\<lambda>(scores, V). matmul scores V)"

section \<open>MultiHeadedSelfAttention\<close>

record MultiHeadedSelfAttention =
  attention_heads :: "SingleHeadAttention list"
  compute :: Linear

text \<open>
  \<^verbatim>\<open>model_dim // num_heads\<close> is floor division, \<open>div\<close> on \<open>int\<close>; the comprehension
  over \<^verbatim>\<open>range(num_heads)\<close> builds no head when \<open>num_heads \<le> 0\<close>. The dropout
  layer has no parameter: its probability 0.2 is written in the forward pass.
\<close>

definition MultiHeadedSelfAttention_init ::
  "int \<Rightarrow> int \<Rightarrow> init \<Rightarrow> error + MultiHeadedSelfAttention" where
  "MultiHeadedSelfAttention_init model_dim num_heads g =
     and_then (sequence (map (\<lambda>i. SingleHeadAttention_init model_dim (model_dim div num_heads)
                                    (sub i (sub 0 g)))
                          [0..<nat num_heads])) (\<lambda>heads.
     and_then (Linear_init model_dim model_dim True (sub 1 g)) (\<lambda>c.
     Inr \<lparr>attention_heads = heads, compute = c\<rparr>))"

text \<open>
  \<^verbatim>\<open>torch.cat(xs, dim=-1)\<close>: raises on an empty list, and when the tensors differ
  in a dimension other than the last.
\<close>

definition cat2 :: "'a tensor3 \<Rightarrow> 'a tensor3 \<Rightarrow> error + 'a tensor3" where
  "cat2 x y =
     (if length (data3 x) \<noteq> length (data3 y) \<or> dim1 x \<noteq> dim1 y then Inl RuntimeError
      else Inr \<lparr>dim1 = dim1 x, dim2 = dim2 x + dim2 y,
                data3 = map2 (map2 (@)) (data3 x) (data3 y)\<rparr>)"

fun cat_from :: "'a tensor3 \<Rightarrow> 'a tensor3 list \<Rightarrow> error + 'a tensor3" where
  "cat_from x [] = Inr x"
| "cat_from x (y # ys) = and_then (cat2 x y) (\<lambda>xy. cat_from xy ys)"

definition cat :: "'a tensor3 list \<Rightarrow> error + 'a tensor3" where
  "cat xs = (case xs of [] \<Rightarrow> Inl RuntimeError | x # ys \<Rightarrow> cat_from x ys)"

definition MultiHeadedSelfAttention_forward ::
  "MultiHeadedSelfAttention \<Rightarrow> bool \<Rightarrow> dropmask \<Rightarrow> real tensor3 \<Rightarrow> error + real tensor3" where
  "MultiHeadedSelfAttention_forward m training keep embedded =
     and_then (sequence (map (\<lambda>head. SingleHeadAttention_forward head embedded)
                          (attention_heads m))) (\<lambda>outs.
     and_then (cat outs) (\<lambda>c.
     and_then (Linear_forward (compute m) c) (\<lambda>y.
     Inr (Dropout_forward (1 / 5) training keep y))))"

section \<open>VanillaNeuralNetwork\<close>

record VanillaNeuralNetwork =
  first_linear_layer :: Linear
  second_linear_layer :: Linear

definition VanillaNeuralNetwork_init :: "int \<Rightarrow> init \<Rightarrow> error + VanillaNeuralNetwork" where
  "VanillaNeuralNetwork_init model_dim g =
     and_then (Linear_init model_dim (model_dim * 4) True (sub 0 g)) (\<lambda>l1.
     and_then (Linear_init (model_dim * 4) model_dim True (sub 1 g)) (\<lambda>l2.
     Inr \<lparr>first_linear_layer = l1, second_linear_layer = l2\<rparr>))"

definition VanillaNeuralNetwork_forward ::
  "VanillaNeuralNetwork \<Rightarrow> bool \<Rightarrow> dropmask \<Rightarrow> real tensor3 \<Rightarrow> error + real tensor3" where
  "VanillaNeuralNetwork_forward n training keep x =
     and_then (Linear_forward (first_linear_layer n) x) (\<lambda>h.
     and_then (Linear_forward (second_linear_layer n) (ReLU_forward h)) (\<lambda>y.
     Inr (Dropout_forward (1 / 5) training keep y)))"

section \<open>TransformerBlock\<close>

record TransformerBlock =
  mhsa :: MultiHeadedSelfAttention
  vanilla_nn :: VanillaNeuralNetwork
  layer_norm_one :: LayerNorm
  layer_norm_two :: LayerNorm

definition TransformerBlock_init :: "int \<Rightarrow> int \<Rightarrow> init \<Rightarrow> error + TransformerBlock" where
  "TransformerBlock_init model_dim num_heads g =
     and_then (MultiHeadedSelfAttention_init model_dim num_heads (sub 0 g)) (\<lambda>a.
     and_then (VanillaNeuralNetwork_init model_dim (sub 1 g)) (\<lambda>n.
     and_then (LayerNorm_init model_dim) (\<lambda>ln1.
     and_then (LayerNorm_init model_dim) (\<lambda>ln2.
     Inr \<lparr>mhsa = a, vanilla_nn = n, layer_norm_one = ln1, layer_norm_two = ln2\<rparr>))))"

text \<open>
  \<^verbatim>\<open>x + y\<close> on tensors of one shape. (torch broadcasts some tensors of different
  shapes; a module built by the constructors never adds two such tensors, and the model
  raises there.)
\<close>

definition add3 :: "real tensor3 \<Rightarrow> real tensor3 \<Rightarrow> error + real tensor3" where
  "add3 x y =
     (if length (data3 x) \<noteq> length (data3 y) \<or> dim1 x \<noteq> dim1 y \<or> dim2 x \<noteq> dim2 y
      then Inl RuntimeError
      else Inr \<lparr>dim1 = dim1 x, dim2 = dim2 x,
                data3 = map2 (map2 (map2 (+))) (data3 x) (data3 y)\<rparr>)"

text \<open>
  \<open>keep1\<close> and \<open>keep2\<close> are the random draws of the block's two dropout layers.
\<close>

definition TransformerBlock_forward ::
  "TransformerBlock \<Rightarrow> bool \<Rightarrow> dropmask \<Rightarrow> dropmask \<Rightarrow> real tensor3 \<Rightarrow> error + real tensor3" where
  "TransformerBlock_forward blk training keep1 keep2 embedded =
     and_then (LayerNorm_forward (layer_norm_one blk) embedded) (\<lambda>n1.
     and_then (MultiHeadedSelfAttention_forward (mhsa blk) training keep1 n1) (\<lambda>a.
     and_then (add3 embedded a) (\<lambda>embedded.
     and_then (LayerNorm_forward (layer_norm_two blk) embedded) (\<lambda>n2.
     and_then (VanillaNeuralNetwork_forward (vanilla_nn blk) training keep2 n2) (\<lambda>f.
     add3 embedded f)))))"

section \<open>GPT\<close>

record GPT =
  token_embedding :: Embedding
  pos_embedding :: Embedding
  transformer_blocks :: "TransformerBlock list"
  layer_norm_three :: LayerNorm
  vocab_projection :: Linear

definition GPT_init :: "int \<Rightarrow> int \<Rightarrow> int \<Rightarrow> int \<Rightarrow> int \<Rightarrow> init \<Rightarrow> error + GPT" where
  "GPT_init vocab_size context_length model_dim num_blocks num_heads g =
     and_then (Embedding_init vocab_size model_dim (sub 0 g)) (\<lambda>te.
     and_then (Embedding_init context_length model_dim (sub 1 g)) (\<lambda>pe.
     and_then (sequence (map (\<lambda>i. TransformerBlock_init model_dim num_heads (sub i (sub 2 g)))
                          [0..<nat num_blocks])) (\<lambda>blocks.
     and_then (LayerNorm_init model_dim) (\<lambda>ln.
     and_then (Linear_init model_dim vocab_size True (sub 3 g)) (\<lambda>vp.
     Inr \<lparr>token_embedding = te, pos_embedding = pe, transformer_blocks = blocks,
          layer_norm_three = ln, vocab_projection = vp\<rparr>)))))"

text \<open>
  \<^verbatim>\<open>nn.Sequential\<close> over the blocks. \<open>keep s\<close> are the random draws of the
  \<open>s\<close>-th dropout call of the forward pass: block \<open>i\<close> makes the calls \<open>2 * i\<close> and
  \<open>2 * i + 1\<close>.
\<close>

fun Sequential_forward ::
  "TransformerBlock list \<Rightarrow> bool \<Rightarrow> (nat \<Rightarrow> dropmask) \<Rightarrow> nat \<Rightarrow> real tensor3 \<Rightarrow> error + real tensor3" where
  "Sequential_forward [] training keep i x = Inr x"
| "Sequential_forward (blk # blks) training keep i x =
     and_then (TransformerBlock_forward blk training (keep (2 * i)) (keep (2 * i + 1)) x)
       (Sequential_forward blks training keep (Suc i))"

definition arange :: "nat \<Rightarrow> int list" where
  "arange T = map int [0..<T]"

text \<open>
  \<^verbatim>\<open>token_embeddings + pos_embedding\<close>: the (T, D) tensor is added to every batch
  row of the (B, T, D) tensor.
\<close>

definition add_broadcast :: "real tensor3 \<Rightarrow> real tensor2 \<Rightarrow> error + real tensor3" where
  "add_broadcast x p =
     (if dim1 x \<noteq> length (data2 p) \<or> dim2 x \<noteq> cols2 p then Inl RuntimeError
      else Inr \<lparr>dim1 = dim1 x, dim2 = dim2 x,
                data3 = map (\<lambda>r. map2 (map2 (+)) r (data2 p)) (data3 x)\<rparr>)"

definition GPT_forward ::
  "GPT \<Rightarrow> bool \<Rightarrow> (nat \<Rightarrow> dropmask) \<Rightarrow> int tensor2 \<Rightarrow> error + real tensor3" where
  "GPT_forward m training keep context =
     (let T = cols2 context in
      and_then (Embedding_forward2 (token_embedding m) context) (\<lambda>token_embeddings.
      and_then (Embedding_forward1 (pos_embedding m) (arange T)) (\<lambda>pos_embedding.
      and_then (add_broadcast token_embeddings pos_embedding) (\<lambda>embedded.
      and_then (Sequential_forward (transformer_blocks m) training keep 0 embedded) (\<lambda>output.
      and_then (LayerNorm_forward (layer_norm_three m) output)
        (Linear_forward (vocab_projection m)))))))"

section \<open>The shapes the constructors build\<close>

text \<open>
  A module is well formed when its parameters have the shapes its constructor gives
  them, of a positive width (\<open>GPT_init_wf\<close> below: the constructor builds a
  well-formed model from a configuration of a positive \<open>model_dim\<close> and a positive
  \<open>num_heads\<close> that divides it). For the attention block this includes what the spec calls the invariant of the
  configuration: at least one head, and a model width that the number of heads divides,
  every head of size \<open>model_dim div num_heads\<close>.
\<close>

definition Linear_wf :: "nat \<Rightarrow> nat \<Rightarrow> Linear \<Rightarrow> bool" where
  "Linear_wf i o' L =
     (in_features L = i \<and> out_features L = o' \<and> length (lin_weight L) = o' \<and>
      list_all (\<lambda>w. length w = i) (lin_weight L) \<and>
      (case lin_bias L of None \<Rightarrow> True | Some b \<Rightarrow> length b = o'))"

definition LayerNorm_wf :: "nat \<Rightarrow> LayerNorm \<Rightarrow> bool" where
  "LayerNorm_wf d N =
     (normalized_shape N = d \<and> length (ln_weight N) = d \<and> length (ln_bias N) = d)"

definition Embedding_wf :: "nat \<Rightarrow> nat \<Rightarrow> Embedding \<Rightarrow> bool" where
  "Embedding_wf n d E =
     (num_embeddings E = n \<and> embedding_dim E = d \<and> length (emb_weight E) = n \<and>
      list_all (\<lambda>w. length w = d) (emb_weight E))"

definition SingleHeadAttention_wf :: "nat \<Rightarrow> nat \<Rightarrow> SingleHeadAttention \<Rightarrow> bool" where
  "SingleHeadAttention_wf d hs h =
     (Linear_wf d hs (key_layer h) \<and> Linear_wf d hs (query_layer h) \<and>
      Linear_wf d hs (value_layer h))"

definition MultiHeadedSelfAttention_wf :: "nat \<Rightarrow> MultiHeadedSelfAttention \<Rightarrow> bool" where
  "MultiHeadedSelfAttention_wf d m =
     (attention_heads m \<noteq> [] \<and> d mod length (attention_heads m) = 0 \<and>
      list_all (SingleHeadAttention_wf d (d div length (attention_heads m))) (attention_heads m) \<and>
      Linear_wf d d (compute m))"

definition VanillaNeuralNetwork_wf :: "nat \<Rightarrow> VanillaNeuralNetwork \<Rightarrow> bool" where
  "VanillaNeuralNetwork_wf d n =
     (Linear_wf d (d * 4) (first_linear_layer n) \<and> Linear_wf (d * 4) d (second_linear_layer n))"

definition TransformerBlock_wf :: "nat \<Rightarrow> TransformerBlock \<Rightarrow> bool" where
  "TransformerBlock_wf d blk =
     (0 < d \<and> MultiHeadedSelfAttention_wf d (mhsa blk) \<and> VanillaNeuralNetwork_wf d (vanilla_nn blk) \<and>
      LayerNorm_wf d (layer_norm_one blk) \<and> LayerNorm_wf d (layer_norm_two blk))"

definition model_dim_of :: "GPT \<Rightarrow> nat" where
  "model_dim_of m = embedding_dim (token_embedding m)"

definition vocab_size_of :: "GPT \<Rightarrow> nat" where
  "vocab_size_of m = num_embeddings (token_embedding m)"

definition context_length_of :: "GPT \<Rightarrow> nat" where
  "context_length_of m = num_embeddings (pos_embedding m)"

definition GPT_wf :: "GPT \<Rightarrow> bool" where
  "GPT_wf m =
     (0 < model_dim_of m \<and> Embedding_wf (vocab_size_of m) (model_dim_of m) (token_embedding m) \<and>
      Embedding_wf (context_length_of m) (model_dim_of m) (pos_embedding m) \<and>
      list_all (TransformerBlock_wf (model_dim_of m)) (transformer_blocks m) \<and>
      LayerNorm_wf (model_dim_of m) (layer_norm_three m) \<and>
      Linear_wf (model_dim_of m) (vocab_size_of m) (vocab_projection m))"

text \<open>
  A valid input of \<^verbatim>\<open>GPT.forward\<close>: a (B, T) tensor with \<open>T \<le> context_length\<close>
  and every index in \<open>[0, vocab_size)\<close>.
\<close>

definition in_vocab :: "nat \<Rightarrow> int \<Rightarrow> bool" where
  "in_vocab V i = (0 \<le> i \<and> i < int V)"

definition valid_context :: "GPT \<Rightarrow> int tensor2 \<Rightarrow> bool" where
  "valid_context m c =
     (wf2 c \<and> cols2 c \<le> context_length_of m \<and>
      list_all (list_all (in_vocab (vocab_size_of m))) (data2 c))"

section \<open>Generation\<close>

text \<open>
  A character is its Unicode code point: the alphabet of the notebook goes beyond ASCII.
  Every value of \<^verbatim>\<open>int_to_char\<close> is a string of one character, so the dictionary
  maps an index to a character and \<^verbatim>\<open>"".join(res)\<close> is the list of the characters.
\<close>

type_synonym pychar = nat

definition int_to_char_table :: "(int \<times> pychar) list" where
  "int_to_char_table =
     [(0, 10), (1, 32), (2, 33), (3, 34), (4, 35), (5, 36), (6, 37), (7, 38), (8, 39),
      (9, 40), (10, 41), (11, 42), (12, 43), (13, 44), (14, 45), (15, 46), (16, 47),
      (17, 48), (18, 49), (19, 50), (20, 51), (21, 52), (22, 53), (23, 54), (24, 55),
      (25, 56), (26, 57), (27, 58), (28, 59), (29, 61), (30, 63), (31, 64), (32, 65),
      (33, 66), (34, 67), (35, 68), (36, 69), (37, 70), (38, 71), (39, 72), (40, 73),
      (41, 74), (42, 75), (43, 76), (44, 77), (45, 78), (46, 79), (47, 80), (48, 81),
      (49, 82), (50, 83), (51, 84), (52, 85), (53, 86), (54, 87), (55, 88), (56, 89),
      (57, 90), (58, 91), (59, 93), (60, 95), (61, 97), (62, 98), (63, 99), (64, 100),
      (65, 101), (66, 102), (67, 103), (68, 104), (69, 105), (70, 106), (71, 107), (72, 108),
      (73, 109), (74, 110), (75, 111), (76, 112), (77, 113), (78, 114), (79, 115), (80, 116),
      (81, 117), (82, 118), (83, 119), (84, 120), (85, 121), (86, 122), (87, 123), (88, 124),
      (89, 125), (90, 126), (91, 224), (92, 225), (93, 232), (94, 233), (95, 235), (96, 241),
      (97, 243), (98, 250), (99, 649), (100, 817), (101, 969), (102, 1103), (103, 1237),
      (104, 1293), (105, 1295), (106, 1312), (107, 1381), (108, 1388), (109, 1403),
      (110, 1615), (111, 1642), (112, 1757), (113, 1762), (114, 1770), (115, 8197),
      (116, 8211), (117, 8212), (118, 8216), (119, 8217), (120, 8220), (121, 8221),
      (122, 8230), (123, 8287)]"

definition int_to_char :: "int \<rightharpoonup> pychar" where
  "int_to_char = map_of int_to_char_table"

text \<open>
  The start of the Python slice \<^verbatim>\<open>[s:]\<close> on a dimension of size \<open>n\<close>: a negative
  \<open>s\<close> counts from the end and is clamped at 0, another one is clamped at \<open>n\<close>.
\<close>

definition slice_start :: "int \<Rightarrow> nat \<Rightarrow> nat" where
  "slice_start s n = (if s < 0 then nat (max 0 (int n + s)) else min (nat s) n)"

text \<open>\<^verbatim>\<open>c[:, s:]\<close>.\<close>

definition slice_cols :: "int \<Rightarrow> 'a tensor2 \<Rightarrow> 'a tensor2" where
  "slice_cols s c =
     (let k = slice_start s (cols2 c)
      in \<lparr>cols2 = cols2 c - k, data2 = map (drop k) (data2 c)\<rparr>)"

text \<open>\<^verbatim>\<open>prediction[:, -1, :]\<close>: IndexError on a tensor with no time step.\<close>

definition select_last :: "'a tensor3 \<Rightarrow> error + 'a tensor2" where
  "select_last x =
     (if dim1 x = 0 then Inl IndexError
      else Inr \<lparr>cols2 = dim2 x, data2 = map last (data3 x)\<rparr>)"

text \<open>
  \<^verbatim>\<open>torch.multinomial(probabilities, 1)\<close>: one index per row, of shape (B, 1). The
  random generator is a state \<open>g\<close> and \<open>sample g p\<close> draws an index from the
  distribution \<open>p\<close> and returns the generator's next state. torch raises on a
  distribution over no category.
\<close>

fun draw_rows :: "('g \<Rightarrow> real list \<Rightarrow> nat \<times> 'g) \<Rightarrow> real list list \<Rightarrow> 'g \<Rightarrow> int list list \<times> 'g" where
  "draw_rows sample [] g = ([], g)"
| "draw_rows sample (p # ps) g =
     (let (i, g') = sample g p; (rest, g'') = draw_rows sample ps g'
      in ([int i] # rest, g''))"

definition multinomial ::
  "('g \<Rightarrow> real list \<Rightarrow> nat \<times> 'g) \<Rightarrow> real tensor2 \<Rightarrow> 'g \<Rightarrow> error + int tensor2 \<times> 'g" where
  "multinomial sample probs g =
     (if cols2 probs = 0 then Inl RuntimeError
      else (let (d, g') = draw_rows sample (data2 probs) g
            in Inr (\<lparr>cols2 = 1, data2 = d\<rparr>, g')))"

text \<open>\<^verbatim>\<open>torch.cat((x, y), dim=-1)\<close> on 2-D tensors.\<close>

definition cat_cols :: "'a tensor2 \<Rightarrow> 'a tensor2 \<Rightarrow> error + 'a tensor2" where
  "cat_cols x y =
     (if length (data2 x) \<noteq> length (data2 y) then Inl RuntimeError
      else Inr \<lparr>cols2 = cols2 x + cols2 y, data2 = map2 (@) (data2 x) (data2 y)\<rparr>)"

text \<open>
  \<^verbatim>\<open>t.item()\<close>: the value of a tensor of exactly one element; torch raises on
  any other tensor (RuntimeError, ValueError in older versions).
\<close>

definition item :: "'a tensor2 \<Rightarrow> error + 'a" where
  "item t = (case data2 t of [[i]] \<Rightarrow> Inr i | _ \<Rightarrow> Inl RuntimeError)"

text \<open>
  The state of the loop of \<^verbatim>\<open>generate\<close>: the variables \<^verbatim>\<open>context\<close>
  (\<open>running_context\<close>) and \<^verbatim>\<open>res\<close> and the random generator. \<open>calls\<close> and
  \<open>draws\<close> are history variables, which the loop writes and never reads: the contexts
  the model was invoked on and the \<^verbatim>\<open>next_char\<close> tensors drawn, in order.
\<close>

record 'g gen_state =
  running_context :: "int tensor2"
  res :: "pychar list"
  rng :: 'g
  calls :: "int tensor2 list"
  draws :: "int tensor2 list"

text \<open>
  One iteration of the loop body. \<open>model\<close> is \<^verbatim>\<open>model(context)\<close>, the forward
  pass in the mode the caller has set (the notebook calls \<^verbatim>\<open>model.eval()\<close> first).
\<close>

definition generate_step ::
  "(int tensor2 \<Rightarrow> error + real tensor3) \<Rightarrow> int \<Rightarrow> (int \<rightharpoonup> pychar) \<Rightarrow>
   ('g \<Rightarrow> real list \<Rightarrow> nat \<times> 'g) \<Rightarrow> 'g gen_state \<Rightarrow> error + 'g gen_state" where
  "generate_step model context_length i2c sample st =
     (let context = slice_cols (- context_length) (running_context st) in
      and_then (model context) (\<lambda>prediction.
      and_then (select_last prediction) (\<lambda>last_time_step.
      let probabilities = softmax2 last_time_step in
      and_then (multinomial sample probabilities (rng st)) (\<lambda>(next_char, g').
      and_then (cat_cols context next_char) (\<lambda>context'.
      and_then (item next_char) (\<lambda>i.
      case i2c i of
        None \<Rightarrow> Inl KeyError
      | Some ch \<Rightarrow>
          Inr \<lparr>running_context = context', res = res st @ [ch], rng = g',
               calls = calls st @ [context], draws = draws st @ [next_char]\<rparr>))))))"

fun generate_loop ::
  "nat \<Rightarrow> (int tensor2 \<Rightarrow> error + real tensor3) \<Rightarrow> int \<Rightarrow> (int \<rightharpoonup> pychar) \<Rightarrow>
   ('g \<Rightarrow> real list \<Rightarrow> nat \<times> 'g) \<Rightarrow> 'g gen_state \<Rightarrow> error + 'g gen_state" where
  "generate_loop 0 model context_length i2c sample st = Inr st"
| "generate_loop (Suc n) model context_length i2c sample st =
     and_then (generate_step model context_length i2c sample st)
       (generate_loop n model context_length i2c sample)"

text \<open>\<^verbatim>\<open>range(new_chars)\<close> is empty for \<open>new_chars \<le> 0\<close>.\<close>

definition generate_run ::
  "(int tensor2 \<Rightarrow> error + real tensor3) \<Rightarrow> int \<Rightarrow> int tensor2 \<Rightarrow> int \<Rightarrow> (int \<rightharpoonup> pychar) \<Rightarrow>
   ('g \<Rightarrow> real list \<Rightarrow> nat \<times> 'g) \<Rightarrow> 'g \<Rightarrow> error + 'g gen_state" where
  "generate_run model new_chars ctx context_length i2c sample g =
     generate_loop (nat new_chars) model context_length i2c sample
       \<lparr>running_context = ctx, res = [], rng = g, calls = [], draws = []\<rparr>"

definition generate ::
  "(int tensor2 \<Rightarrow> error + real tensor3) \<Rightarrow> int \<Rightarrow> int tensor2 \<Rightarrow> int \<Rightarrow> (int \<rightharpoonup> pychar) \<Rightarrow>
   ('g \<Rightarrow> real list \<Rightarrow> nat \<times> 'g) \<Rightarrow> 'g \<Rightarrow> error + pychar list" where
  "generate model new_chars ctx context_length i2c sample g =
     and_then (generate_run model new_chars ctx context_length i2c sample g)
       (\<lambda>st. Inr (res st))"

section \<open>Closed forms of the attention head\<close>

text \<open>
  The definitions of this section are not part of the program: they name what the
  forward pass of a head computes for one batch row, so that the lemmas below can say
  it. \<open>head_batch\<close> and \<open>head_out\<close> follow the forward pass step by step;
  \<open>weight_row\<close> and \<open>attn_row\<close> are the closed forms of a row of the attention
  weights and of the output, sums over the positions \<open>j \<le> i\<close> only.
\<close>

definition causal_mask :: "nat \<Rightarrow> bool list list" where
  "causal_mask T = data2 (eq_zero (tril (ones T T)))"

definition head_batch :: "SingleHeadAttention \<Rightarrow> nat \<Rightarrow> real list list \<Rightarrow> real list list \<times> real list list" where
  "head_batch h T xs =
     (let K = map (affine (key_layer h)) xs;
          Q = map (affine (query_layer h)) xs;
          V = map (affine (value_layer h)) xs;
          A = out_features (key_layer h);
          KT = map (\<lambda>c. map (\<lambda>row. row ! c) K) [0..<A];
          QK = map (\<lambda>row. map (\<lambda>j. \<Sum>c\<leftarrow>[0..<A]. row ! c * KT ! c ! j) [0..<T]) Q;
          S = map (map (\<lambda>s. s / sqrt (real A))) QK;
          M = map2 (\<lambda>row mrow. map2 (\<lambda>s b. if b then NegInf else Fin s) row mrow) S (causal_mask T)
      in (map softmax M, V))"

definition score :: "SingleHeadAttention \<Rightarrow> real list list \<Rightarrow> nat \<Rightarrow> nat \<Rightarrow> real" where
  "score h xs i j =
     (\<Sum>c\<leftarrow>[0..<out_features (key_layer h)].
        affine (query_layer h) (xs ! i) ! c * affine (key_layer h) (xs ! j) ! c)
     / sqrt (real (out_features (key_layer h)))"

definition weight_row :: "SingleHeadAttention \<Rightarrow> real list list \<Rightarrow> nat \<Rightarrow> real list" where
  "weight_row h xs i =
     map (\<lambda>j. if j \<le> i then exp (score h xs i j) / (\<Sum>j'\<leftarrow>[0..<Suc i]. exp (score h xs i j')) else 0)
       [0..<length xs]"

definition attn_row :: "SingleHeadAttention \<Rightarrow> real list list \<Rightarrow> nat \<Rightarrow> real list" where
  "attn_row h xs i =
     map (\<lambda>d. \<Sum>j\<leftarrow>[0..<Suc i].
                exp (score h xs i j) / (\<Sum>j'\<leftarrow>[0..<Suc i]. exp (score h xs i j'))
                * affine (value_layer h) (xs ! j) ! d)
       [0..<out_features (value_layer h)]"

definition head_out :: "SingleHeadAttention \<Rightarrow> nat \<Rightarrow> real list list \<Rightarrow> real list list" where
  "head_out h T xs =
     map (\<lambda>row. map (\<lambda>d. \<Sum>j\<leftarrow>[0..<T]. row ! j * snd (head_batch h T xs) ! j ! d)
                  [0..<out_features (value_layer h)])
       (fst (head_batch h T xs))"

text \<open>
  Two tensors of shape (B, T, D) that agree, in every batch row, on the first \<open>n\<close>
  positions.
\<close>

definition both :: "nat \<Rightarrow> nat \<Rightarrow> nat \<Rightarrow> nat \<Rightarrow> 'a tensor3 \<Rightarrow> 'a tensor3 \<Rightarrow> bool" where
  "both n B T D x y =
     (has_shape3 B T D x \<and> has_shape3 B T D y \<and>
      (\<forall>b<B. take n (data3 x ! b) = take n (data3 y ! b)))"

text \<open>
  What the theorems about \<^verbatim>\<open>generate\<close> ask of its collaborators. A model
  \<open>serves\<close> contexts of one row, of length between 1 and \<open>C\<close> and indices below
  \<open>V\<close>, when it returns logits of shape (1, T, V) on each; a sampler is
  \<open>categorical\<close> when it returns a category of the distribution it is given, as
  \<^verbatim>\<open>torch.multinomial\<close> does; \<open>single_row V c\<close> is a context of batch size 1 with
  at least one token and every index below \<open>V\<close>.
\<close>

definition serves :: "(int tensor2 \<Rightarrow> error + real tensor3) \<Rightarrow> nat \<Rightarrow> nat \<Rightarrow> bool" where
  "serves model C V =
     (\<forall>c. length (data2 c) = 1 \<and> wf2 c \<and> 0 < cols2 c \<and> cols2 c \<le> C \<and>
          list_all (list_all (in_vocab V)) (data2 c)
          \<longrightarrow> (\<exists>p. model c = Inr p \<and> has_shape3 1 (cols2 c) V p))"

definition categorical :: "('g \<Rightarrow> real list \<Rightarrow> nat \<times> 'g) \<Rightarrow> bool" where
  "categorical sample = (\<forall>g p. p \<noteq> [] \<longrightarrow> fst (sample g p) < length p)"

definition single_row :: "nat \<Rightarrow> int tensor2 \<Rightarrow> bool" where
  "single_row V c =
     (length (data2 c) = 1 \<and> wf2 c \<and> 0 < cols2 c \<and> list_all (list_all (in_vocab V)) (data2 c))"

text \<open>What the constructor of the attention block builds, whatever the number of heads.\<close>

definition MultiHeadedSelfAttention_built :: "nat \<Rightarrow> nat \<Rightarrow> nat \<Rightarrow> MultiHeadedSelfAttention \<Rightarrow> bool" where
  "MultiHeadedSelfAttention_built d H hs m =
     (length (attention_heads m) = H \<and> list_all (SingleHeadAttention_wf d hs) (attention_heads m) \<and>
      Linear_wf d d (compute m))"

definition TransformerBlock_built :: "nat \<Rightarrow> nat \<Rightarrow> nat \<Rightarrow> TransformerBlock \<Rightarrow> bool" where
  "TransformerBlock_built d H hs blk =
     (MultiHeadedSelfAttention_built d H hs (mhsa blk) \<and> VanillaNeuralNetwork_wf d (vanilla_nn blk) \<and>
      LayerNorm_wf d (layer_norm_one blk) \<and> LayerNorm_wf d (layer_norm_two blk))"

text \<open>The index held by a drawn \<^verbatim>\<open>next_char\<close> tensor of shape (1, 1).\<close>

definition drawn_index :: "int tensor2 \<Rightarrow> int" where
  "drawn_index d = hd (hd (data2 d))"

section \<open>Small instances\<close>

text \<open>
  Concrete modules and inputs, small enough to be checked by evaluation. \<open>tiny_gpt\<close>
  has the shapes of \<^verbatim>\<open>GPT(vocab_size=2, context_length=3, model_dim=2, num_blocks=1,
  num_heads=2)\<close>.
\<close>

definition tiny_linear :: "nat \<Rightarrow> nat \<Rightarrow> bool \<Rightarrow> Linear" where
  "tiny_linear i o' has_bias =
     \<lparr>in_features = i, out_features = o', lin_weight = replicate o' (replicate i 1),
      lin_bias = (if has_bias then Some (replicate o' 0) else None)\<rparr>"

definition tiny_head :: SingleHeadAttention where
  "tiny_head = \<lparr>key_layer = tiny_linear 2 1 False, query_layer = tiny_linear 2 1 False,
                 value_layer = tiny_linear 2 1 False\<rparr>"

definition tiny_norm :: LayerNorm where
  "tiny_norm = \<lparr>normalized_shape = 2, ln_weight = [1, 1], ln_bias = [0, 0], eps = 1 / 100000\<rparr>"

definition tiny_block :: TransformerBlock where
  "tiny_block =
     \<lparr>mhsa = \<lparr>attention_heads = [tiny_head, tiny_head], compute = tiny_linear 2 2 True\<rparr>,
      vanilla_nn = \<lparr>first_linear_layer = tiny_linear 2 8 True,
                     second_linear_layer = tiny_linear 8 2 True\<rparr>,
      layer_norm_one = tiny_norm, layer_norm_two = tiny_norm\<rparr>"

definition tiny_gpt :: GPT where
  "tiny_gpt =
     \<lparr>token_embedding = \<lparr>num_embeddings = 2, embedding_dim = 2, emb_weight = [[1, 0], [0, 1]]\<rparr>,
      pos_embedding = \<lparr>num_embeddings = 3, embedding_dim = 2,
                        emb_weight = [[0, 0], [1, 0], [0, 1]]\<rparr>,
      transformer_blocks = [tiny_block],
      layer_norm_three = tiny_norm,
      vocab_projection = tiny_linear 2 2 True\<rparr>"

definition tiny_x :: "real tensor3" where
  "tiny_x = \<lparr>dim1 = 3, dim2 = 2, data3 = [[[1, 2], [3, 4], [5, 6]]]\<rparr>"

definition tiny_y :: "real tensor3" where
  "tiny_y = \<lparr>dim1 = 3, dim2 = 2, data3 = [[[1, 2], [3, 4], [7, 9]]]\<rparr>"

definition tiny_c1 :: "int tensor2" where
  "tiny_c1 = \<lparr>cols2 = 3, data2 = [[0, 1, 0]]\<rparr>"

definition tiny_c2 :: "int tensor2" where
  "tiny_c2 = \<lparr>cols2 = 3, data2 = [[0, 1, 1]]\<rparr>"

definition tiny_long :: "int tensor2" where
  "tiny_long = \<lparr>cols2 = 4, data2 = [[0, 1, 0, 1]]\<rparr>"

definition tiny_bad :: "int tensor2" where
  "tiny_bad = \<lparr>cols2 = 2, data2 = [[0, 2]]\<rparr>"

definition tiny_pair :: "int tensor2" where
  "tiny_pair = \<lparr>cols2 = 1, data2 = [[0], [1]]\<rparr>"

text \<open>A sampler that always draws category 0; its generator has no state.\<close>

definition always_first :: "unit \<Rightarrow> real list \<Rightarrow> nat \<times> unit" where
  "always_first g p = (0, g)"

text \<open>
  A head whose scores are all 0, so that its weights are uniform over the allowed
  positions, and whose value is the first feature: its output at position \<open>i\<close> is
  the mean of the first feature over the positions \<open>j \<le> i\<close>.
\<close>

definition mean_head :: SingleHeadAttention where
  "mean_head =
     \<lparr>key_layer = \<lparr>in_features = 2, out_features = 1, lin_weight = [[0, 0]], lin_bias = None\<rparr>,
      query_layer = \<lparr>in_features = 2, out_features = 1, lin_weight = [[0, 0]], lin_bias = None\<rparr>,
      value_layer = \<lparr>in_features = 2, out_features = 1, lin_weight = [[1, 0]], lin_bias = None\<rparr>\<rparr>"

section \<open>Results and sequences of results\<close>

lemma and_then_Inr [simp]: "and_then (Inr x) f = f x"
  by (simp add: and_then_def)

lemma and_then_Inl [simp]: "and_then (Inl e) f = Inl e"
  by (simp add: and_then_def)

lemma and_then_eq_Inr:
  "and_then r f = Inr y \<longleftrightarrow> (\<exists>x. r = Inr x \<and> f x = Inr y)"
  by (cases r) simp_all

lemma sequence_eq_Inr: "sequence rs = Inr xs \<longleftrightarrow> rs = map Inr xs"
proof (induction rs arbitrary: xs)
  case Nil
  show ?case by auto
next
  case (Cons r rs)
  show ?case
  proof (cases r)
    case (Inl e)
    then show ?thesis by (cases xs) auto
  next
    case (Inr x)
    show ?thesis
    proof (cases "sequence rs")
      case (Inl e)
      then have "\<forall>ys. rs \<noteq> map Inr ys" using Cons.IH by auto
      with Inl Inr show ?thesis by (cases xs) auto
    next
      case r2: (Inr ys)
      then have "rs = map Inr ys" using Cons.IH by simp
      with r2 Inr show ?thesis by (cases xs) auto
    qed
  qed
qed

lemma sequence_map_Inr [simp]: "sequence (map Inr xs) = Inr xs"
  by (simp add: sequence_eq_Inr)

lemma sequence_map_total:
  assumes "\<And>x. x \<in> set xs \<Longrightarrow> f x = Inr (g x)"
  shows "sequence (map f xs) = Inr (map g xs)"
proof -
  have "map f xs = map Inr (map g xs)" using assms by simp
  then show ?thesis by (simp only: sequence_map_Inr)
qed

section \<open>Shapes of the layers\<close>

lemma length_affine:
  "Linear_wf i o' L \<Longrightarrow> length (affine L v) = o'"
  by (auto simp: Linear_wf_def affine_def split: option.splits)

lemma Linear_forward_shape:
  assumes "Linear_wf i o' L" "has_shape3 B T i x"
  shows "Linear_forward L x = Inr \<lparr>dim1 = T, dim2 = o', data3 = map (map (affine L)) (data3 x)\<rparr>"
    and "has_shape3 B T o' \<lparr>dim1 = T, dim2 = o', data3 = map (map (affine L)) (data3 x)\<rparr>"
proof -
  show "Linear_forward L x = Inr \<lparr>dim1 = T, dim2 = o', data3 = map (map (affine L)) (data3 x)\<rparr>"
    using assms by (simp add: Linear_forward_def Linear_wf_def has_shape3_def)
  show "has_shape3 B T o' \<lparr>dim1 = T, dim2 = o', data3 = map (map (affine L)) (data3 x)\<rparr>"
    using assms length_affine [OF assms(1)]
    by (simp add: has_shape3_def wf3_def list_all_iff)
qed

lemma length_layer_norm:
  "LayerNorm_wf d N \<Longrightarrow> length v = d \<Longrightarrow> length (layer_norm N v) = d"
  by (simp add: LayerNorm_wf_def layer_norm_def)

lemma LayerNorm_forward_shape:
  assumes "LayerNorm_wf d N" "has_shape3 B T d x"
  shows "LayerNorm_forward N x = Inr \<lparr>dim1 = T, dim2 = d, data3 = map (map (layer_norm N)) (data3 x)\<rparr>"
    and "has_shape3 B T d \<lparr>dim1 = T, dim2 = d, data3 = map (map (layer_norm N)) (data3 x)\<rparr>"
proof -
  show "LayerNorm_forward N x = Inr \<lparr>dim1 = T, dim2 = d, data3 = map (map (layer_norm N)) (data3 x)\<rparr>"
    using assms by (simp add: LayerNorm_forward_def LayerNorm_wf_def has_shape3_def)
  show "has_shape3 B T d \<lparr>dim1 = T, dim2 = d, data3 = map (map (layer_norm N)) (data3 x)\<rparr>"
    using assms length_layer_norm [OF assms(1)]
    by (simp add: has_shape3_def wf3_def list_all_iff)
qed

section \<open>The attention head, row by row\<close>

lemma map2_same: "map2 f (map g xs) (map h xs) = map (\<lambda>x. f (g x) (h x)) xs"
  by (induction xs) auto

lemma attention_weights_batch:
  assumes "SingleHeadAttention_wf d hs h" "has_shape3 B T d x"
  shows "attention_weights h x =
      Inr (\<lparr>dim1 = T, dim2 = T, data3 = map (\<lambda>xs. fst (head_batch h T xs)) (data3 x)\<rparr>,
           \<lparr>dim1 = T, dim2 = hs, data3 = map (\<lambda>xs. snd (head_batch h T xs)) (data3 x)\<rparr>)"
proof -
  have k: "Linear_wf d hs (key_layer h)" and q: "Linear_wf d hs (query_layer h)"
    and v: "Linear_wf d hs (value_layer h)"
    using assms(1) by (simp_all add: SingleHeadAttention_wf_def)
  have A: "out_features (key_layer h) = hs" using k by (simp add: Linear_wf_def)
  show ?thesis
    unfolding attention_weights_def
    by (simp add: Linear_forward_shape(1) [OF k assms(2)] Linear_forward_shape(1) [OF q assms(2)]
        Linear_forward_shape(1) [OF v assms(2)] matmul_def transpose12_def Let_def
        div_scalar_def masked_fill_def softmax3_def head_batch_def causal_mask_def A
        map2_same comp_def)
qed

lemma sum_list_upt_if:
  assumes "i < T"
  shows "(\<Sum>j\<leftarrow>[0..<T]. if j \<le> i then f j else (0::real)) = (\<Sum>j\<leftarrow>[0..<Suc i]. f j)"
proof -
  have split: "[0..<T] = [0..<Suc i] @ [Suc i..<T]"
    using assms upt_add_eq_append [of 0 "Suc i" "T - Suc i"] by simp
  have a: "map (\<lambda>j. if j \<le> i then f j else 0) [0..<Suc i] = map f [0..<Suc i]"
    by (rule map_cong) auto
  have b: "map (\<lambda>j. if j \<le> i then f j else 0) [Suc i..<T] = map (\<lambda>j. 0) [Suc i..<T]"
    by (rule map_cong) auto
  show ?thesis
    unfolding split map_append sum_list_append a b by simp
qed

lemma causal_mask_row:
  assumes "i < T"
  shows "causal_mask T ! i = map (\<lambda>j. \<not> j \<le> i) [0..<T]"
proof -
  have "causal_mask T ! i
      = map (\<lambda>x. x = 0) (map (\<lambda>(j, x). if j \<le> i then x else (0::real)) (enumerate 0 (replicate T 1)))"
    using assms
    by (simp add: causal_mask_def eq_zero_def tril_def ones_def nth_enumerate_eq)
  also have "\<dots> = map (\<lambda>j. \<not> j \<le> i) [0..<T]"
    by (rule nth_equalityI) (simp_all add: nth_enumerate_eq)
  finally show ?thesis .
qed

lemma length_causal_mask [simp]: "length (causal_mask T) = T"
  by (simp add: causal_mask_def eq_zero_def tril_def ones_def)

lemma head_batch_weights_row:
  assumes "i < length xs"
  shows "fst (head_batch h (length xs) xs) ! i = weight_row h xs i"
proof -
  let ?A = "out_features (key_layer h)"
  let ?T = "length xs"
  let ?K = "map (affine (key_layer h)) xs"
  let ?KT = "map (\<lambda>c. map (\<lambda>row. row ! c) ?K) [0..<?A]"
  have entry: "(\<Sum>c\<leftarrow>[0..<?A]. affine (query_layer h) (xs ! i) ! c * ?KT ! c ! j) / sqrt (real ?A)
      = score h xs i j" if "j < ?T" for j
  proof -
    have "map (\<lambda>c. affine (query_layer h) (xs ! i) ! c * ?KT ! c ! j) [0..<?A]
        = map (\<lambda>c. affine (query_layer h) (xs ! i) ! c * affine (key_layer h) (xs ! j) ! c) [0..<?A]"
      using that by (intro map_cong) auto
    then show ?thesis by (simp only: score_def)
  qed
  have M: "map2 (\<lambda>s b. if b then NegInf else Fin s)
             (map (\<lambda>s. s / sqrt (real ?A))
                (map (\<lambda>j. \<Sum>c\<leftarrow>[0..<?A]. affine (query_layer h) (xs ! i) ! c * ?KT ! c ! j) [0..<?T]))
             (causal_mask ?T ! i)
         = map (\<lambda>j. if j \<le> i then Fin (score h xs i j) else NegInf) [0..<?T]"
    (is "?lhs = ?rhs")
  proof (rule nth_equalityI)
    show "length ?lhs = length ?rhs" using assms by (simp add: causal_mask_row)
  next
    fix j assume "j < length ?lhs"
    then have j: "j < ?T" using assms by (simp add: causal_mask_row)
    show "?lhs ! j = ?rhs ! j"
      using j assms entry [OF j] by (simp add: causal_mask_row)
  qed
  have Z: "sum_list (map xexp (map (\<lambda>j. if j \<le> i then Fin (score h xs i j) else NegInf) [0..<?T]))
      = (\<Sum>j'\<leftarrow>[0..<Suc i]. exp (score h xs i j'))"
  proof -
    have "map xexp (map (\<lambda>j. if j \<le> i then Fin (score h xs i j) else NegInf) [0..<?T])
        = map (\<lambda>j. if j \<le> i then exp (score h xs i j) else 0) [0..<?T]"
      by simp
    then show ?thesis by (simp only: sum_list_upt_if [OF assms])
  qed
  have "fst (head_batch h ?T xs) ! i = softmax ?lhs"
    using assms by (simp add: head_batch_def Let_def)
  also have "\<dots> = softmax ?rhs" by (simp only: M)
  also have "\<dots> = weight_row h xs i"
    unfolding softmax_def Z weight_row_def by simp
  finally show ?thesis .
qed

lemma length_head_batch_weights [simp]:
  "length (fst (head_batch h (length xs) xs)) = length xs"
  by (simp add: head_batch_def Let_def)

lemma head_out_row:
  assumes "i < length xs"
  shows "head_out h (length xs) xs ! i = attn_row h xs i"
proof -
  have V: "snd (head_batch h (length xs) xs) = map (affine (value_layer h)) xs"
    by (simp add: head_batch_def Let_def)
  have "head_out h (length xs) xs ! i
      = map (\<lambda>d. \<Sum>j\<leftarrow>[0..<length xs]. weight_row h xs i ! j * map (affine (value_layer h)) xs ! j ! d)
          [0..<out_features (value_layer h)]"
    using assms by (simp add: head_out_def head_batch_weights_row V)
  also have "\<dots> = attn_row h xs i"
    unfolding attn_row_def
  proof (rule map_cong [OF refl])
    fix d
    have "map (\<lambda>j. weight_row h xs i ! j * map (affine (value_layer h)) xs ! j ! d) [0..<length xs]
        = map (\<lambda>j. if j \<le> i
                    then exp (score h xs i j) / (\<Sum>j'\<leftarrow>[0..<Suc i]. exp (score h xs i j'))
                         * affine (value_layer h) (xs ! j) ! d
                    else 0) [0..<length xs]"
      by (rule map_cong) (auto simp: weight_row_def simp del: upt_Suc)
    then show "(\<Sum>j\<leftarrow>[0..<length xs]. weight_row h xs i ! j * map (affine (value_layer h)) xs ! j ! d)
        = (\<Sum>j\<leftarrow>[0..<Suc i]. exp (score h xs i j) / (\<Sum>j'\<leftarrow>[0..<Suc i]. exp (score h xs i j'))
              * affine (value_layer h) (xs ! j) ! d)"
      by (simp only: sum_list_upt_if [OF assms])
  qed
  finally show ?thesis .
qed

lemma length_head_out [simp]: "length (head_out h (length xs) xs) = length xs"
  by (simp add: head_out_def)

lemma SingleHeadAttention_forward_batch:
  assumes "SingleHeadAttention_wf d hs h" "has_shape3 B T d x"
  shows "SingleHeadAttention_forward h x =
      Inr \<lparr>dim1 = T, dim2 = hs, data3 = map (head_out h T) (data3 x)\<rparr>"
proof -
  have hs: "out_features (value_layer h) = hs"
    using assms(1) by (simp add: SingleHeadAttention_wf_def Linear_wf_def)
  show ?thesis
    unfolding SingleHeadAttention_forward_def attention_weights_batch [OF assms]
    by (simp add: matmul_def map2_same head_out_def hs)
qed

lemma prefix_nth: "take n xs = take n ys \<Longrightarrow> j < n \<Longrightarrow> xs ! j = ys ! j"
  by (metis nth_take)

lemma score_prefix:
  assumes "take (Suc i) xs = take (Suc i) ys" "j \<le> i"
  shows "score h xs i j = score h ys i j"
proof -
  have "xs ! i = ys ! i" "xs ! j = ys ! j"
    using prefix_nth [OF assms(1)] assms(2) by simp_all
  then show ?thesis by (simp only: score_def)
qed

lemma attn_row_prefix:
  assumes "take (Suc i) xs = take (Suc i) ys"
  shows "attn_row h xs i = attn_row h ys i"
proof -
  have s: "score h xs i j = score h ys i j" if "j \<le> i" for j
    using score_prefix [OF assms that] .
  have v: "xs ! j = ys ! j" if "j \<le> i" for j
    using prefix_nth [OF assms] that by simp
  have Z: "map (\<lambda>j'. exp (score h xs i j')) [0..<Suc i] = map (\<lambda>j'. exp (score h ys i j')) [0..<Suc i]"
    by (rule map_cong) (auto simp: s simp del: upt_Suc)
  have "map (\<lambda>j. exp (score h xs i j) / (\<Sum>j'\<leftarrow>[0..<Suc i]. exp (score h xs i j'))
                * affine (value_layer h) (xs ! j) ! d) [0..<Suc i]
      = map (\<lambda>j. exp (score h ys i j) / (\<Sum>j'\<leftarrow>[0..<Suc i]. exp (score h ys i j'))
                * affine (value_layer h) (ys ! j) ! d) [0..<Suc i]" for d
    unfolding Z by (rule map_cong) (auto simp: s v simp del: upt_Suc)
  then show ?thesis by (simp only: attn_row_def)
qed

section \<open>Agreement on a prefix is preserved by every layer\<close>

lemma both_refl: "both n B T D x x \<longleftrightarrow> has_shape3 B T D x"
  by (simp add: both_def)

lemma has_shape3_iff:
  "has_shape3 B T D x \<longleftrightarrow>
     length (data3 x) = B \<and> dim1 x = T \<and> dim2 x = D \<and>
     (\<forall>b<B. length (data3 x ! b) = T \<and> (\<forall>t<T. length (data3 x ! b ! t) = D))"
  by (auto simp: has_shape3_def wf3_def list_all_length)

lemma both_pointwise:
  assumes xy: "both n B T D x y"
    and len: "\<And>v. length v = D \<Longrightarrow> length (f v) = D'"
  shows "both n B T D' \<lparr>dim1 = T, dim2 = D', data3 = map (map f) (data3 x)\<rparr>
           \<lparr>dim1 = T, dim2 = D', data3 = map (map f) (data3 y)\<rparr>"
proof -
  have x: "has_shape3 B T D x" and y: "has_shape3 B T D y"
    and eq: "\<And>b. b < B \<Longrightarrow> take n (data3 x ! b) = take n (data3 y ! b)"
    using xy by (simp_all add: both_def)
  have "take n (map f (data3 x ! b)) = take n (map f (data3 y ! b))" if "b < B" for b
    using eq [OF that] by (simp add: take_map)
  then show ?thesis
    using x y len unfolding both_def has_shape3_iff by simp
qed

lemma both_Linear:
  assumes "Linear_wf i o' L" "both n B T i x y"
  shows "\<exists>x' y'. Linear_forward L x = Inr x' \<and> Linear_forward L y = Inr y' \<and> both n B T o' x' y'"
proof -
  have x: "has_shape3 B T i x" and y: "has_shape3 B T i y" using assms(2) by (simp_all add: both_def)
  show ?thesis
    using Linear_forward_shape(1) [OF assms(1) x] Linear_forward_shape(1) [OF assms(1) y]
      both_pointwise [OF assms(2), of "affine L" o'] length_affine [OF assms(1)]
    by simp
qed

lemma both_LayerNorm:
  assumes "LayerNorm_wf d N" "both n B T d x y"
  shows "\<exists>x' y'. LayerNorm_forward N x = Inr x' \<and> LayerNorm_forward N y = Inr y' \<and> both n B T d x' y'"
proof -
  have x: "has_shape3 B T d x" and y: "has_shape3 B T d y" using assms(2) by (simp_all add: both_def)
  show ?thesis
    using LayerNorm_forward_shape(1) [OF assms(1) x] LayerNorm_forward_shape(1) [OF assms(1) y]
      both_pointwise [OF assms(2), of "layer_norm N" d] length_layer_norm [OF assms(1)]
    by simp
qed

lemma both_ReLU:
  assumes "both n B T D x y"
  shows "both n B T D (ReLU_forward x) (ReLU_forward y)"
proof -
  have x: "has_shape3 B T D x" and y: "has_shape3 B T D y" using assms by (simp_all add: both_def)
  have "ReLU_forward x = \<lparr>dim1 = T, dim2 = D, data3 = map (map (map relu)) (data3 x)\<rparr>"
    "ReLU_forward y = \<lparr>dim1 = T, dim2 = D, data3 = map (map (map relu)) (data3 y)\<rparr>"
    using x y by (simp_all add: ReLU_forward_def has_shape3_def)
  then show ?thesis using both_pointwise [OF assms, of "map relu" D] by simp
qed

lemma take_enumerate: "take n (enumerate k xs) = enumerate k (take n xs)"
  by (induction xs arbitrary: n k) (auto simp: take_Cons split: nat.splits)

lemma take_dropout_seq: "take n (dropout_seq p keep r) = dropout_seq p keep (take n r)"
  by (simp add: dropout_seq_def take_map take_enumerate)

lemma length_dropout_seq [simp]: "length (dropout_seq p keep r) = length r"
  by (simp add: dropout_seq_def)

lemma nth_dropout_seq:
  "t < length r \<Longrightarrow> dropout_seq p keep r ! t = dropout_vec p (keep t) (r ! t)"
  by (simp add: dropout_seq_def nth_enumerate_eq)

lemma length_dropout_vec [simp]: "length (dropout_vec p keep v) = length v"
  by (simp add: dropout_vec_def)

lemma both_Dropout:
  assumes "both n B T D x y"
  shows "both n B T D (Dropout_forward p training keep x) (Dropout_forward p training keep y)"
proof (cases training)
  case False
  then show ?thesis using assms by (simp add: Dropout_forward_def)
next
  case True
  have x: "has_shape3 B T D x" and y: "has_shape3 B T D y"
    and eq: "\<And>b. b < B \<Longrightarrow> take n (data3 x ! b) = take n (data3 y ! b)"
    using assms by (simp_all add: both_def)
  have "take n (dropout_seq p (keep b) (data3 x ! b)) = take n (dropout_seq p (keep b) (data3 y ! b))"
    if "b < B" for b
    using eq [OF that] by (simp add: take_dropout_seq)
  then show ?thesis
    using True x y unfolding both_def has_shape3_iff Dropout_forward_def
    by (simp add: nth_enumerate_eq nth_dropout_seq)
qed

lemma both_add3:
  assumes "both n B T D x y" "both n B T D a b"
  shows "\<exists>x' y'. add3 x a = Inr x' \<and> add3 y b = Inr y' \<and> both n B T D x' y'"
proof -
  have x: "has_shape3 B T D x" and y: "has_shape3 B T D y"
    and a: "has_shape3 B T D a" and b: "has_shape3 B T D b"
    and eq1: "\<And>i. i < B \<Longrightarrow> take n (data3 x ! i) = take n (data3 y ! i)"
    and eq2: "\<And>i. i < B \<Longrightarrow> take n (data3 a ! i) = take n (data3 b ! i)"
    using assms by (simp_all add: both_def)
  have "take n (map2 (map2 (+)) (data3 x ! i) (data3 a ! i))
      = take n (map2 (map2 (+)) (data3 y ! i) (data3 b ! i))" if "i < B" for i
    using eq1 [OF that] eq2 [OF that] by (simp add: take_map take_zip)
  then show ?thesis
    using x y a b unfolding both_def has_shape3_iff add3_def by simp
qed

lemma both_cat2:
  assumes "both n B T D x y" "both n B T E a b"
  shows "\<exists>x' y'. cat2 x a = Inr x' \<and> cat2 y b = Inr y' \<and> both n B T (D + E) x' y'"
proof -
  have x: "has_shape3 B T D x" and y: "has_shape3 B T D y"
    and a: "has_shape3 B T E a" and b: "has_shape3 B T E b"
    and eq1: "\<And>i. i < B \<Longrightarrow> take n (data3 x ! i) = take n (data3 y ! i)"
    and eq2: "\<And>i. i < B \<Longrightarrow> take n (data3 a ! i) = take n (data3 b ! i)"
    using assms by (simp_all add: both_def)
  have "take n (map2 (@) (data3 x ! i) (data3 a ! i))
      = take n (map2 (@) (data3 y ! i) (data3 b ! i))" if "i < B" for i
    using eq1 [OF that] eq2 [OF that] by (simp add: take_map take_zip)
  then show ?thesis
    using x y a b unfolding both_def has_shape3_iff cat2_def by simp
qed

lemma both_cat_from:
  assumes "both n B T D x y" "list_all2 (both n B T E) xs ys"
  shows "\<exists>x' y'. cat_from x xs = Inr x' \<and> cat_from y ys = Inr y' \<and>
           both n B T (D + length xs * E) x' y'"
  using assms(2) assms(1)
proof (induction xs ys arbitrary: x y D rule: list_all2_induct)
  case Nil
  then show ?case by simp
next
  case (Cons a xs b ys)
  obtain x' y' where c: "cat2 x a = Inr x'" "cat2 y b = Inr y'" "both n B T (D + E) x' y'"
    using both_cat2 [OF Cons.prems Cons.hyps(1)] by blast
  obtain x'' y'' where "cat_from x' xs = Inr x''" "cat_from y' ys = Inr y''"
    "both n B T (D + E + length xs * E) x'' y''"
    using Cons.IH [OF c(3)] by blast
  then show ?case using c by (simp add: add.assoc add.commute)
qed

lemma both_cat:
  assumes "list_all2 (both n B T E) xs ys" "xs \<noteq> []"
  shows "\<exists>x' y'. cat xs = Inr x' \<and> cat ys = Inr y' \<and> both n B T (length xs * E) x' y'"
proof -
  obtain a xs' b ys' where eq: "xs = a # xs'" "ys = b # ys'"
    using assms by (cases xs; cases ys) auto
  then have "both n B T E a b" "list_all2 (both n B T E) xs' ys'" using assms(1) by simp_all
  from both_cat_from [OF this] show ?thesis using eq by (simp add: cat_def add.commute)
qed

lemma length_attn_row [simp]: "length (attn_row h xs i) = out_features (value_layer h)"
  by (simp add: attn_row_def)

lemma take_head_out:
  assumes "length xs = T" "length ys = T" "take n xs = take n ys"
  shows "take n (head_out h T xs) = take n (head_out h T ys)"
proof (rule nth_equalityI)
  show "length (take n (head_out h T xs)) = length (take n (head_out h T ys))"
    using assms length_head_out [of h xs] length_head_out [of h ys] by simp
next
  fix i assume "i < length (take n (head_out h T xs))"
  then have i: "i < n" "i < T" using assms(1) length_head_out [of h xs] by simp_all
  have "take (Suc i) (take n xs) = take (Suc i) (take n ys)" using assms(3) by simp
  then have pre: "take (Suc i) xs = take (Suc i) ys" using i(1) by (simp add: min_def)
  have "head_out h T xs ! i = attn_row h xs i" "head_out h T ys ! i = attn_row h ys i"
    using head_out_row [of i xs h] head_out_row [of i ys h] assms(1,2) i(2) by simp_all
  then show "take n (head_out h T xs) ! i = take n (head_out h T ys) ! i"
    using i attn_row_prefix [OF pre, of h] by simp
qed

lemma both_head:
  assumes wf: "SingleHeadAttention_wf d hs h" and xy: "both n B T d x y"
  shows "both n B T hs \<lparr>dim1 = T, dim2 = hs, data3 = map (head_out h T) (data3 x)\<rparr>
           \<lparr>dim1 = T, dim2 = hs, data3 = map (head_out h T) (data3 y)\<rparr>"
proof -
  have hs: "out_features (value_layer h) = hs"
    using wf by (simp add: SingleHeadAttention_wf_def Linear_wf_def)
  have x: "has_shape3 B T d x" and y: "has_shape3 B T d y"
    and eq: "\<And>b. b < B \<Longrightarrow> take n (data3 x ! b) = take n (data3 y ! b)"
    using xy by (simp_all add: both_def)
  have shape: "has_shape3 B T hs \<lparr>dim1 = T, dim2 = hs, data3 = map (head_out h T) (data3 z)\<rparr>"
    if z: "has_shape3 B T d z" for z
  proof -
    have "length (head_out h T (data3 z ! b)) = T \<and>
          (\<forall>t<T. length (head_out h T (data3 z ! b) ! t) = hs)" if "b < B" for b
    proof -
      have len: "length (data3 z ! b) = T" using z that by (simp add: has_shape3_iff)
      have "length (head_out h T (data3 z ! b)) = T"
        using length_head_out [of h "data3 z ! b"] len by simp
      moreover have "length (head_out h T (data3 z ! b) ! t) = hs" if "t < T" for t
        using head_out_row [of t "data3 z ! b" h] len that hs by simp
      ultimately show ?thesis by simp
    qed
    then show ?thesis using z unfolding has_shape3_iff by simp
  qed
  have "take n (head_out h T (data3 x ! b)) = take n (head_out h T (data3 y ! b))" if "b < B" for b
  proof -
    have "length (data3 x ! b) = T" "length (data3 y ! b) = T"
      using x y that by (simp_all add: has_shape3_iff)
    then show ?thesis using take_head_out eq [OF that] by blast
  qed
  moreover have "length (data3 x) = B" "length (data3 y) = B"
    using x y by (simp_all add: has_shape3_iff)
  ultimately show ?thesis
    using shape [OF x] shape [OF y] unfolding both_def by simp
qed

lemma both_MultiHeadedSelfAttention:
  assumes wf: "MultiHeadedSelfAttention_wf d m" and xy: "both n B T d x y"
  shows "\<exists>x' y'. MultiHeadedSelfAttention_forward m training keep x = Inr x' \<and>
           MultiHeadedSelfAttention_forward m training keep y = Inr y' \<and> both n B T d x' y'"
proof -
  let ?hs = "d div length (attention_heads m)"
  let ?G = "\<lambda>z h. \<lparr>dim1 = T, dim2 = ?hs, data3 = map (head_out h T) (data3 z)\<rparr>"
  have heads: "\<And>h. h \<in> set (attention_heads m) \<Longrightarrow> SingleHeadAttention_wf d ?hs h"
    and ne: "attention_heads m \<noteq> []" and dv: "d mod length (attention_heads m) = 0"
    and c: "Linear_wf d d (compute m)"
    using wf by (simp_all add: MultiHeadedSelfAttention_wf_def list_all_iff)
  have x: "has_shape3 B T d x" and y: "has_shape3 B T d y" using xy by (simp_all add: both_def)
  have sx: "sequence (map (\<lambda>head. SingleHeadAttention_forward head x) (attention_heads m))
      = Inr (map (?G x) (attention_heads m))"
    by (rule sequence_map_total) (simp add: SingleHeadAttention_forward_batch [OF heads x])
  have sy: "sequence (map (\<lambda>head. SingleHeadAttention_forward head y) (attention_heads m))
      = Inr (map (?G y) (attention_heads m))"
    by (rule sequence_map_total) (simp add: SingleHeadAttention_forward_batch [OF heads y])
  have "list_all2 (both n B T ?hs) (map (?G x) (attention_heads m)) (map (?G y) (attention_heads m))"
    using both_head [OF heads xy] by (simp add: list_all2_map1 list_all2_map2 list_all2_same)
  from both_cat [OF this] ne
  obtain cx cy where cat: "cat (map (?G x) (attention_heads m)) = Inr cx"
    "cat (map (?G y) (attention_heads m)) = Inr cy"
    "both n B T (length (attention_heads m) * ?hs) cx cy"
    by auto
  have "length (attention_heads m) * ?hs = d" using dv by auto
  then have "both n B T d cx cy" using cat(3) by simp
  from both_Linear [OF c this]
  obtain lx ly where lin: "Linear_forward (compute m) cx = Inr lx"
    "Linear_forward (compute m) cy = Inr ly" "both n B T d lx ly"
    by blast
  show ?thesis
    unfolding MultiHeadedSelfAttention_forward_def sx sy
    using cat(1,2) lin(1,2) both_Dropout [OF lin(3)] by simp
qed

lemma both_VanillaNeuralNetwork:
  assumes wf: "VanillaNeuralNetwork_wf d v" and xy: "both n B T d x y"
  shows "\<exists>x' y'. VanillaNeuralNetwork_forward v training keep x = Inr x' \<and>
           VanillaNeuralNetwork_forward v training keep y = Inr y' \<and> both n B T d x' y'"
proof -
  have l1: "Linear_wf d (d * 4) (first_linear_layer v)"
    and l2: "Linear_wf (d * 4) d (second_linear_layer v)"
    using wf by (simp_all add: VanillaNeuralNetwork_wf_def)
  from both_Linear [OF l1 xy]
  obtain hx hy where h: "Linear_forward (first_linear_layer v) x = Inr hx"
    "Linear_forward (first_linear_layer v) y = Inr hy" "both n B T (d * 4) hx hy"
    by blast
  from both_Linear [OF l2 both_ReLU [OF h(3)]]
  obtain ox oy where ou: "Linear_forward (second_linear_layer v) (ReLU_forward hx) = Inr ox"
    "Linear_forward (second_linear_layer v) (ReLU_forward hy) = Inr oy" "both n B T d ox oy"
    by blast
  show ?thesis
    unfolding VanillaNeuralNetwork_forward_def
    using h(1,2) ou(1,2) both_Dropout [OF ou(3)] by simp
qed

lemma both_TransformerBlock:
  assumes wf: "TransformerBlock_wf d blk" and xy: "both n B T d x y"
  shows "\<exists>x' y'. TransformerBlock_forward blk training k1 k2 x = Inr x' \<and>
           TransformerBlock_forward blk training k1 k2 y = Inr y' \<and> both n B T d x' y'"
proof -
  have a: "MultiHeadedSelfAttention_wf d (mhsa blk)" and v: "VanillaNeuralNetwork_wf d (vanilla_nn blk)"
    and n1: "LayerNorm_wf d (layer_norm_one blk)" and n2: "LayerNorm_wf d (layer_norm_two blk)"
    using wf by (simp_all add: TransformerBlock_wf_def)
  from both_LayerNorm [OF n1 xy]
  obtain nx ny where s1: "LayerNorm_forward (layer_norm_one blk) x = Inr nx"
    "LayerNorm_forward (layer_norm_one blk) y = Inr ny" "both n B T d nx ny"
    by blast
  from both_MultiHeadedSelfAttention [OF a s1(3)]
  obtain ax ay where s2: "MultiHeadedSelfAttention_forward (mhsa blk) training k1 nx = Inr ax"
    "MultiHeadedSelfAttention_forward (mhsa blk) training k1 ny = Inr ay" "both n B T d ax ay"
    by blast
  from both_add3 [OF xy s2(3)]
  obtain ex ey where s3: "add3 x ax = Inr ex" "add3 y ay = Inr ey" "both n B T d ex ey"
    by blast
  from both_LayerNorm [OF n2 s3(3)]
  obtain mx my where s4: "LayerNorm_forward (layer_norm_two blk) ex = Inr mx"
    "LayerNorm_forward (layer_norm_two blk) ey = Inr my" "both n B T d mx my"
    by blast
  from both_VanillaNeuralNetwork [OF v s4(3)]
  obtain fx fy where s5: "VanillaNeuralNetwork_forward (vanilla_nn blk) training k2 mx = Inr fx"
    "VanillaNeuralNetwork_forward (vanilla_nn blk) training k2 my = Inr fy" "both n B T d fx fy"
    by blast
  from both_add3 [OF s3(3) s5(3)]
  obtain ox oy where s6: "add3 ex fx = Inr ox" "add3 ey fy = Inr oy" "both n B T d ox oy"
    by blast
  show ?thesis
    unfolding TransformerBlock_forward_def
    using s1(1,2) s2(1,2) s3(1,2) s4(1,2) s5(1,2) s6 by simp
qed

lemma both_Sequential:
  assumes "list_all (TransformerBlock_wf d) blks" "both n B T d x y"
  shows "\<exists>x' y'. Sequential_forward blks training keep i x = Inr x' \<and>
           Sequential_forward blks training keep i y = Inr y' \<and> both n B T d x' y'"
  using assms
proof (induction blks arbitrary: i x y)
  case Nil
  then show ?case by simp
next
  case (Cons blk blks)
  then have wf: "TransformerBlock_wf d blk" and rest: "list_all (TransformerBlock_wf d) blks"
    by simp_all
  from both_TransformerBlock [OF wf Cons.prems(2)]
  obtain bx bY where b: "TransformerBlock_forward blk training (keep (2 * i)) (keep (2 * i + 1)) x = Inr bx"
    "TransformerBlock_forward blk training (keep (2 * i)) (keep (2 * i + 1)) y = Inr bY"
    "both n B T d bx bY"
    by blast
  from Cons.IH [OF rest b(3)] show ?case using b(1,2) by simp
qed

lemma lookup_in_vocab:
  "in_vocab (num_embeddings E) i \<Longrightarrow> lookup E i = Inr (emb_weight E ! nat i)"
  by (simp add: lookup_def in_vocab_def)

lemma lookup_out_of_range:
  "\<not> in_vocab (num_embeddings E) i \<Longrightarrow> lookup E i = Inl IndexError"
  by (auto simp: lookup_def in_vocab_def)

lemma Embedding_forward2_valid:
  assumes "list_all (list_all (in_vocab (num_embeddings E))) (data2 c)"
  shows "Embedding_forward2 E c =
     Inr \<lparr>dim1 = cols2 c, dim2 = embedding_dim E,
          data3 = map (map (\<lambda>i. emb_weight E ! nat i)) (data2 c)\<rparr>"
proof -
  have row: "sequence (map (lookup E) r) = Inr (map (\<lambda>i. emb_weight E ! nat i) r)"
    if "r \<in> set (data2 c)" for r
    using assms that by (intro sequence_map_total) (auto simp: list_all_iff lookup_in_vocab)
  have "sequence (map (\<lambda>r. sequence (map (lookup E) r)) (data2 c))
      = Inr (map (map (\<lambda>i. emb_weight E ! nat i)) (data2 c))"
    by (rule sequence_map_total) (rule row)
  then show ?thesis by (simp add: Embedding_forward2_def)
qed

lemma Embedding_forward1_arange:
  assumes "T \<le> num_embeddings E"
  shows "Embedding_forward1 E (arange T) =
     Inr \<lparr>cols2 = embedding_dim E, data2 = map (\<lambda>t. emb_weight E ! t) [0..<T]\<rparr>"
proof -
  have "sequence (map (lookup E) (arange T)) = Inr (map (\<lambda>i. emb_weight E ! nat i) (arange T))"
    using assms by (intro sequence_map_total) (auto simp: arange_def lookup_def)
  then show ?thesis by (simp add: Embedding_forward1_def arange_def comp_def)
qed

lemma both_embedded:
  assumes te: "Embedding_wf V d te" and pe: "Embedding_wf C d pe"
    and c1: "wf2 c1" "list_all (list_all (in_vocab V)) (data2 c1)"
    and c2: "wf2 c2" "list_all (list_all (in_vocab V)) (data2 c2)"
    and B: "length (data2 c1) = B" "length (data2 c2) = B"
    and T: "cols2 c1 = T" "cols2 c2 = T" "T \<le> C"
    and eq: "\<And>b. b < B \<Longrightarrow> take n (data2 c1 ! b) = take n (data2 c2 ! b)"
  shows "\<exists>x y. and_then (Embedding_forward2 te c1)
             (\<lambda>tok. and_then (Embedding_forward1 pe (arange T)) (add_broadcast tok)) = Inr x \<and>
           and_then (Embedding_forward2 te c2)
             (\<lambda>tok. and_then (Embedding_forward1 pe (arange T)) (add_broadcast tok)) = Inr y \<and>
           both n B T d x y"
proof -
  let ?P = "map (\<lambda>t. emb_weight pe ! t) [0..<T]"
  let ?X = "\<lambda>c. map (\<lambda>r. map2 (map2 (+)) r ?P) (map (map (\<lambda>i. emb_weight te ! nat i)) (data2 c))"
  have V: "num_embeddings te = V" "embedding_dim te = d" "length (emb_weight te) = V"
    and tw: "\<And>k. k < V \<Longrightarrow> length (emb_weight te ! k) = d"
    using te by (simp_all add: Embedding_wf_def list_all_length)
  have C: "num_embeddings pe = C" "embedding_dim pe = d" "length (emb_weight pe) = C"
    and pw: "\<And>k. k < C \<Longrightarrow> length (emb_weight pe ! k) = d"
    using pe by (simp_all add: Embedding_wf_def list_all_length)
  have run: "and_then (Embedding_forward2 te c)
             (\<lambda>tok. and_then (Embedding_forward1 pe (arange T)) (add_broadcast tok))
         = Inr \<lparr>dim1 = T, dim2 = d, data3 = ?X c\<rparr>"
    if "list_all (list_all (in_vocab V)) (data2 c)" "cols2 c = T" for c
    using that T(3) by (simp add: Embedding_forward2_valid V Embedding_forward1_arange C add_broadcast_def)
  have shape: "has_shape3 B T d \<lparr>dim1 = T, dim2 = d, data3 = ?X c\<rparr>"
    if c: "wf2 c" "list_all (list_all (in_vocab V)) (data2 c)" "cols2 c = T" "length (data2 c) = B" for c
  proof -
    have len: "length (data2 c ! b) = T" if "b < B" for b
      using c that by (simp add: wf2_def list_all_length)
    have "nat (data2 c ! b ! t) < V" if "b < B" "t < T" for b t
    proof -
      have "in_vocab V (data2 c ! b ! t)"
        using c that len [OF that(1)] by (simp add: list_all_length)
      then show ?thesis by (auto simp: in_vocab_def)
    qed
    then show ?thesis
      using len c(4) T(3) tw pw unfolding has_shape3_iff by simp
  qed
  have "take n (map2 (map2 (+)) (map (\<lambda>i. emb_weight te ! nat i) (data2 c1 ! b)) ?P)
      = take n (map2 (map2 (+)) (map (\<lambda>i. emb_weight te ! nat i) (data2 c2 ! b)) ?P)" if "b < B" for b
    using eq [OF that] by (simp add: take_map take_zip)
  then have "\<forall>b<B. take n (?X c1 ! b) = take n (?X c2 ! b)"
    using B by simp
  then show ?thesis
    using run [OF c1(2) T(1)] run [OF c2(2) T(2)] shape [OF c1 T(1) B(1)] shape [OF c2 T(2) B(2)]
    unfolding both_def by simp
qed

lemma both_GPT:
  assumes wf: "GPT_wf m" and v1: "valid_context m c1" and v2: "valid_context m c2"
    and B: "length (data2 c1) = B" "length (data2 c2) = B"
    and T: "cols2 c1 = T" "cols2 c2 = T"
    and eq: "\<And>b. b < B \<Longrightarrow> take n (data2 c1 ! b) = take n (data2 c2 ! b)"
  shows "\<exists>l1 l2. GPT_forward m training keep c1 = Inr l1 \<and> GPT_forward m training keep c2 = Inr l2 \<and>
           both n B T (vocab_size_of m) l1 l2"
proof -
  let ?d = "model_dim_of m" and ?V = "vocab_size_of m"
  have te: "Embedding_wf ?V ?d (token_embedding m)"
    and pe: "Embedding_wf (context_length_of m) ?d (pos_embedding m)"
    and blks: "list_all (TransformerBlock_wf ?d) (transformer_blocks m)"
    and ln: "LayerNorm_wf ?d (layer_norm_three m)"
    and vp: "Linear_wf ?d ?V (vocab_projection m)"
    using wf by (simp_all add: GPT_wf_def)
  have c1: "wf2 c1" "list_all (list_all (in_vocab ?V)) (data2 c1)"
    and c2: "wf2 c2" "list_all (list_all (in_vocab ?V)) (data2 c2)"
    and TC: "T \<le> context_length_of m"
    using v1 v2 T by (auto simp: valid_context_def)
  from both_embedded [OF te pe c1 c2 B T TC eq]
  obtain ex ey where e: "and_then (Embedding_forward2 (token_embedding m) c1)
             (\<lambda>tok. and_then (Embedding_forward1 (pos_embedding m) (arange T)) (add_broadcast tok)) = Inr ex"
    "and_then (Embedding_forward2 (token_embedding m) c2)
             (\<lambda>tok. and_then (Embedding_forward1 (pos_embedding m) (arange T)) (add_broadcast tok)) = Inr ey"
    "both n B T ?d ex ey"
    by blast
  from both_Sequential [OF blks e(3)]
  obtain ox oy where s: "Sequential_forward (transformer_blocks m) training keep 0 ex = Inr ox"
    "Sequential_forward (transformer_blocks m) training keep 0 ey = Inr oy" "both n B T ?d ox oy"
    by blast
  from both_LayerNorm [OF ln s(3)]
  obtain nx ny where l: "LayerNorm_forward (layer_norm_three m) ox = Inr nx"
    "LayerNorm_forward (layer_norm_three m) oy = Inr ny" "both n B T ?d nx ny"
    by blast
  from both_Linear [OF vp l(3)]
  obtain l1 l2 where p: "Linear_forward (vocab_projection m) nx = Inr l1"
    "Linear_forward (vocab_projection m) ny = Inr l2" "both n B T ?V l1 l2"
    by blast
  have run: "GPT_forward m training keep c = Inr l"
    if "cols2 c = T"
      "and_then (Embedding_forward2 (token_embedding m) c)
         (\<lambda>tok. and_then (Embedding_forward1 (pos_embedding m) (arange T)) (add_broadcast tok)) = Inr e"
      "Sequential_forward (transformer_blocks m) training keep 0 e = Inr o'"
      "LayerNorm_forward (layer_norm_three m) o' = Inr n'"
      "Linear_forward (vocab_projection m) n' = Inr l" for c e o' n' l
    using that unfolding GPT_forward_def Let_def
    by (auto simp: and_then_eq_Inr)
  show ?thesis
    using run [OF T(1) e(1) s(1) l(1) p(1)] run [OF T(2) e(2) s(2) l(2) p(2)] p(3) by blast
qed

section \<open>Inference mode\<close>

text \<open>
  In training mode the output of a dropout layer depends on the random draws; in
  inference mode no layer reads them.
\<close>

lemma Dropout_forward_training_depends:
  "Dropout_forward (1 / 5) True (\<lambda>b t d. True) \<lparr>dim1 = 1, dim2 = 1, data3 = [[[1]]]\<rparr>
   \<noteq> Dropout_forward (1 / 5) True (\<lambda>b t d. False) \<lparr>dim1 = 1, dim2 = 1, data3 = [[[1]]]\<rparr>"
  by (simp add: Dropout_forward_def dropout_seq_def dropout_vec_def)

lemma Dropout_forward_eval: "Dropout_forward p False keep x = x"
  by (simp add: Dropout_forward_def)

lemma MultiHeadedSelfAttention_forward_eval:
  "MultiHeadedSelfAttention_forward m False keep x = MultiHeadedSelfAttention_forward m False keep' x"
  by (simp add: MultiHeadedSelfAttention_forward_def Dropout_forward_eval)

lemma VanillaNeuralNetwork_forward_eval:
  "VanillaNeuralNetwork_forward n False keep x = VanillaNeuralNetwork_forward n False keep' x"
  by (simp add: VanillaNeuralNetwork_forward_def Dropout_forward_eval)

lemma TransformerBlock_forward_eval:
  "TransformerBlock_forward blk False k1 k2 x = TransformerBlock_forward blk False k1' k2' x"
  unfolding TransformerBlock_forward_def
  using MultiHeadedSelfAttention_forward_eval [of "mhsa blk" k1 _ k1']
    VanillaNeuralNetwork_forward_eval [of "vanilla_nn blk" k2 _ k2']
  by simp

lemma Sequential_forward_eval:
  "Sequential_forward blks False keep i x = Sequential_forward blks False keep' j x"
proof (induction blks arbitrary: i j x)
  case Nil
  show ?case by simp
next
  case (Cons blk blks)
  have "TransformerBlock_forward blk False (keep (2 * i)) (keep (2 * i + 1)) x
      = TransformerBlock_forward blk False (keep' (2 * j)) (keep' (2 * j + 1)) x"
    by (rule TransformerBlock_forward_eval)
  moreover have "Sequential_forward blks False keep (Suc i) = Sequential_forward blks False keep' (Suc j)"
    using Cons.IH by blast
  ultimately show ?case by simp
qed

section \<open>The attention weights of a row\<close>

lemma sum_list_exp_pos: "0 < (\<Sum>j\<leftarrow>[0..<Suc i]. exp (f j :: real))"
proof -
  have "0 \<le> sum_list (map (\<lambda>j. exp (f j)) [0..<i])"
    by (rule sum_list_nonneg) auto
  moreover have "0 < exp (f i)" by simp
  ultimately have "0 < sum_list (map (\<lambda>j. exp (f j)) [0..<i]) + exp (f i)"
    by (rule add_nonneg_pos)
  then show ?thesis by simp
qed

lemma weight_row_sum:
  assumes "i < length xs"
  shows "sum_list (take (Suc i) (weight_row h xs i)) = 1"
proof -
  let ?Z = "\<Sum>j'\<leftarrow>[0..<Suc i]. exp (score h xs i j')"
  have Z: "0 < ?Z" by (rule sum_list_exp_pos)
  have "take (Suc i) (weight_row h xs i)
      = map (\<lambda>j. if j \<le> i then exp (score h xs i j) / ?Z else 0) [0..<Suc i]"
    using assms by (simp add: weight_row_def take_map min_def del: upt_Suc)
  also have "\<dots> = map (\<lambda>j. exp (score h xs i j) * inverse ?Z) [0..<Suc i]"
    by (rule map_cong) (auto simp: divide_inverse simp del: upt_Suc)
  finally have "sum_list (take (Suc i) (weight_row h xs i))
      = (\<Sum>j\<leftarrow>[0..<Suc i]. exp (score h xs i j) * inverse ?Z)"
    by (simp only:)
  also have "\<dots> = ?Z * inverse ?Z"
    by (simp only: sum_list_mult_const)
  also have "\<dots> = 1" using Z by simp
  finally show ?thesis .
qed

lemma weight_row_masked:
  assumes "i < j" "j < length xs"
  shows "weight_row h xs i ! j = 0"
  using assms by (simp add: weight_row_def del: upt_Suc)

lemma length_weight_row [simp]: "length (weight_row h xs i) = length xs"
  by (simp add: weight_row_def)

section \<open>Errors and shapes of the forward pass\<close>

lemma sequence_lookup_invalid:
  "\<not> list_all (in_vocab (num_embeddings E)) r \<Longrightarrow> sequence (map (lookup E) r) = Inl IndexError"
proof (induction r)
  case Nil
  then show ?case by simp
next
  case (Cons i r)
  show ?case
  proof (cases "in_vocab (num_embeddings E) i")
    case True
    then have "\<not> list_all (in_vocab (num_embeddings E)) r" using Cons.prems by simp
    then show ?thesis using Cons.IH True by (simp add: lookup_in_vocab)
  next
    case False
    then show ?thesis by (simp add: lookup_out_of_range)
  qed
qed

lemma sequence_lookup_valid:
  "list_all (in_vocab (num_embeddings E)) r \<Longrightarrow>
   sequence (map (lookup E) r) = Inr (map (\<lambda>i. emb_weight E ! nat i) r)"
  by (intro sequence_map_total) (auto simp: list_all_iff lookup_in_vocab)

lemma sequence_rows_invalid:
  "\<not> list_all (list_all (in_vocab (num_embeddings E))) rows \<Longrightarrow>
   sequence (map (\<lambda>r. sequence (map (lookup E) r)) rows) = Inl IndexError"
proof (induction rows)
  case Nil
  then show ?case by simp
next
  case (Cons r rows)
  show ?case
  proof (cases "list_all (in_vocab (num_embeddings E)) r")
    case True
    then have "\<not> list_all (list_all (in_vocab (num_embeddings E))) rows" using Cons.prems by simp
    then show ?thesis using Cons.IH sequence_lookup_valid [OF True] by simp
  next
    case False
    then show ?thesis by (simp add: sequence_lookup_invalid)
  qed
qed

lemma Embedding_forward2_invalid:
  "\<not> list_all (list_all (in_vocab (num_embeddings E))) (data2 c) \<Longrightarrow>
   Embedding_forward2 E c = Inl IndexError"
  by (simp add: Embedding_forward2_def sequence_rows_invalid)

lemma Embedding_forward1_too_long:
  assumes "num_embeddings E < T"
  shows "Embedding_forward1 E (arange T) = Inl IndexError"
proof -
  have "int (num_embeddings E) \<in> set (arange T)" using assms by (simp add: arange_def)
  moreover have "\<not> in_vocab (num_embeddings E) (int (num_embeddings E))"
    by (simp add: in_vocab_def)
  ultimately have "\<not> list_all (in_vocab (num_embeddings E)) (arange T)"
    by (auto simp: list_all_iff)
  then show ?thesis by (simp add: Embedding_forward1_def sequence_lookup_invalid)
qed

lemma GPT_forward_invalid:
  assumes "context_length_of m < cols2 c \<or>
           \<not> list_all (list_all (in_vocab (vocab_size_of m))) (data2 c)"
  shows "GPT_forward m training keep c = Inl IndexError"
proof (cases "list_all (list_all (in_vocab (vocab_size_of m))) (data2 c)")
  case False
  then show ?thesis
    by (simp add: GPT_forward_def Embedding_forward2_invalid vocab_size_of_def)
next
  case True
  then have "context_length_of m < cols2 c" using assms by blast
  then show ?thesis
    using True
    by (simp add: GPT_forward_def Embedding_forward2_valid Embedding_forward1_too_long
        vocab_size_of_def context_length_of_def)
qed

lemma GPT_forward_valid:
  assumes "GPT_wf m" "valid_context m c"
  shows "\<exists>l. GPT_forward m training keep c = Inr l \<and>
           has_shape3 (length (data2 c)) (cols2 c) (vocab_size_of m) l"
  using both_GPT [OF assms(1) assms(2) assms(2) refl refl refl refl refl,
      where n = 0 and training = training and keep = keep]
  by (auto simp: both_def)

lemma TransformerBlock_forward_steps:
  assumes wf: "TransformerBlock_wf d blk" and x: "has_shape3 B T d x"
  shows "\<exists>n1 a x' n2 f x''.
      LayerNorm_forward (layer_norm_one blk) x = Inr n1 \<and>
      MultiHeadedSelfAttention_forward (mhsa blk) training k1 n1 = Inr a \<and>
      add3 x a = Inr x' \<and>
      LayerNorm_forward (layer_norm_two blk) x' = Inr n2 \<and>
      VanillaNeuralNetwork_forward (vanilla_nn blk) training k2 n2 = Inr f \<and>
      add3 x' f = Inr x'' \<and>
      TransformerBlock_forward blk training k1 k2 x = Inr x'' \<and>
      has_shape3 B T d a \<and> has_shape3 B T d x' \<and> has_shape3 B T d f \<and> has_shape3 B T d x''"
proof -
  have a: "MultiHeadedSelfAttention_wf d (mhsa blk)" and v: "VanillaNeuralNetwork_wf d (vanilla_nn blk)"
    and n1: "LayerNorm_wf d (layer_norm_one blk)" and n2: "LayerNorm_wf d (layer_norm_two blk)"
    using wf by (simp_all add: TransformerBlock_wf_def)
  have xx: "both 0 B T d x x" using x by (simp add: both_refl)
  from both_LayerNorm [OF n1 xx]
  obtain nx where s1: "LayerNorm_forward (layer_norm_one blk) x = Inr nx" "both 0 B T d nx nx"
    by auto
  from both_MultiHeadedSelfAttention [OF a s1(2), of training k1]
  obtain ax where s2: "MultiHeadedSelfAttention_forward (mhsa blk) training k1 nx = Inr ax"
    "both 0 B T d ax ax"
    by auto
  from both_add3 [OF xx s2(2)]
  obtain ex where s3: "add3 x ax = Inr ex" "both 0 B T d ex ex"
    by auto
  from both_LayerNorm [OF n2 s3(2)]
  obtain mx where s4: "LayerNorm_forward (layer_norm_two blk) ex = Inr mx" "both 0 B T d mx mx"
    by auto
  from both_VanillaNeuralNetwork [OF v s4(2), of training k2]
  obtain fx where s5: "VanillaNeuralNetwork_forward (vanilla_nn blk) training k2 mx = Inr fx"
    "both 0 B T d fx fx"
    by auto
  from both_add3 [OF s3(2) s5(2)]
  obtain ox where s6: "add3 ex fx = Inr ox" "both 0 B T d ox ox"
    by auto
  have "TransformerBlock_forward blk training k1 k2 x = Inr ox"
    unfolding TransformerBlock_forward_def using s1(1) s2(1) s3(1) s4(1) s5(1) s6(1) by simp
  then show ?thesis
    using s1(1) s2 s3 s4(1) s5 s6 unfolding both_refl by blast
qed

lemma add3_data:
  "add3 x a = Inr y \<Longrightarrow> data3 y = map2 (map2 (map2 (+))) (data3 x) (data3 a)"
  by (auto simp: add3_def split: if_splits)

section \<open>The generation loop\<close>

lemma slice_start_neg:
  "0 < C \<Longrightarrow> n - slice_start (- C) n = min n (nat C)"
  by (auto simp: slice_start_def)

lemma cols2_slice_cols:
  "0 < C \<Longrightarrow> cols2 (slice_cols (- C) c) = min (cols2 c) (nat C)"
  by (simp add: slice_cols_def Let_def slice_start_neg)

lemma single_row_slice:
  assumes "single_row V c" "0 < C"
  shows "single_row V (slice_cols (- C) c)" "cols2 (slice_cols (- C) c) \<le> nat C"
proof -
  obtain row where row: "data2 c = [row]" "length row = cols2 c" "0 < cols2 c"
    "list_all (in_vocab V) row"
    using assms(1) by (cases "data2 c") (auto simp: single_row_def wf2_def)
  let ?k = "slice_start (- C) (cols2 c)"
  have k: "cols2 c - ?k = min (cols2 c) (nat C)" by (rule slice_start_neg [OF assms(2)])
  have "list_all (in_vocab V) (drop ?k row)"
    using row(4) by (auto simp: list_all_iff dest: in_set_dropD)
  then show "single_row V (slice_cols (- C) c)"
    using row assms(2) k by (simp add: single_row_def slice_cols_def Let_def wf2_def)
  show "cols2 (slice_cols (- C) c) \<le> nat C"
    by (simp add: cols2_slice_cols [OF assms(2)])
qed

lemma generate_step_cols:
  assumes "generate_step model C i2c sample st = Inr st'"
  shows "cols2 (running_context st') = cols2 (slice_cols (- C) (running_context st)) + 1"
    and "calls st' = calls st @ [slice_cols (- C) (running_context st)]"
    and "length (res st') = length (res st) + 1"
    and "length (draws st') = length (draws st) + 1"
  using assms
  by (auto simp: generate_step_def Let_def and_then_eq_Inr multinomial_def cat_cols_def
      split: if_splits prod.splits option.splits)

lemma generate_step_single:
  fixes st :: "'g gen_state"
  assumes c: "single_row V c'" "c' = slice_cols (- C) (running_context st)"
    and m: "model c' = Inr p" "has_shape3 1 (cols2 c') V p" "0 < V"
    and s: "categorical sample"
    and k: "\<And>i. in_vocab V i \<Longrightarrow> i2c i \<noteq> None"
  shows "\<exists>st' i. generate_step model C i2c sample st = Inr st' \<and>
           single_row V (running_context st') \<and>
           draws st' = draws st @ [\<lparr>cols2 = 1, data2 = [[i]]\<rparr>] \<and>
           res st' = res st @ [the (i2c i)] \<and> in_vocab V i"
proof -
  obtain row where row: "data2 c' = [row]" "length row = cols2 c'" "0 < cols2 c'"
    "list_all (in_vocab V) row"
    using c(1) by (cases "data2 c'") (auto simp: single_row_def wf2_def)
  obtain seq where seq: "data3 p = [seq]" "length seq = cols2 c'" "dim1 p = cols2 c'" "dim2 p = V"
    "\<forall>t<cols2 c'. length (seq ! t) = V"
    using m(2) by (cases "data3 p") (auto simp: has_shape3_iff)
  have seq_ne: "seq \<noteq> []" using seq(2) row(3) by auto
  have lastlen: "length (last seq) = V"
    using seq seq_ne row(3) by (simp add: last_conv_nth)
  let ?probs = "softmax (map Fin (last seq))"
  have pne: "?probs \<noteq> []" "length ?probs = V"
    using lastlen m(3) by (auto simp: softmax_def)
  obtain i g' where smp: "sample (rng st) ?probs = (i, g')" by (cases "sample (rng st) ?probs")
  have iV: "i < V" using s pne smp unfolding categorical_def by (metis fst_conv)
  then have inv: "in_vocab V (int i)" by (simp add: in_vocab_def)
  then obtain ch where ch: "i2c (int i) = Some ch" using k by fastforce
  let ?st' = "\<lparr>running_context = \<lparr>cols2 = cols2 c' + 1, data2 = [row @ [int i]]\<rparr>,
                res = res st @ [ch], rng = g',
                calls = calls st @ [c'], draws = draws st @ [\<lparr>cols2 = 1, data2 = [[int i]]\<rparr>]\<rparr>"
  have "generate_step model C i2c sample st = Inr ?st'"
    using c(2) m(1) seq row smp ch m(3)
    by (simp add: generate_step_def Let_def select_last_def softmax2_def multinomial_def
        cat_cols_def item_def)
  moreover have "single_row V (running_context ?st')"
    using row inv by (simp add: single_row_def wf2_def)
  ultimately show ?thesis using ch inv by force
qed

lemma generate_loop_single:
  fixes st :: "'g gen_state"
  assumes srv: "serves model (nat C) V" and C: "0 < C" and V: "0 < V"
    and s: "categorical sample"
    and k: "\<And>i. in_vocab V i \<Longrightarrow> i2c i \<noteq> None"
    and c: "single_row V (running_context st)"
  shows "\<exists>st' ds. generate_loop n model C i2c sample st = Inr st' \<and>
           single_row V (running_context st') \<and>
           res st' = res st @ map (\<lambda>d. the (i2c (drawn_index d))) ds \<and>
           draws st' = draws st @ ds \<and> length ds = n \<and>
           (\<forall>d \<in> set ds. cols2 d = 1 \<and> (\<exists>i. data2 d = [[i]] \<and> in_vocab V i))"
  using c
proof (induction n arbitrary: st)
  case 0
  then show ?case by simp
next
  case (Suc n)
  let ?c' = "slice_cols (- C) (running_context st)"
  have c': "single_row V ?c'" "cols2 ?c' \<le> nat C"
    using single_row_slice [OF Suc.prems C] by simp_all
  then obtain p where p: "model ?c' = Inr p" "has_shape3 1 (cols2 ?c') V p"
    using srv unfolding serves_def single_row_def by blast
  from generate_step_single [where C = C and st = st and model = model and c' = ?c' and V = V
      and sample = sample and ?i2c.0 = i2c, OF c'(1) refl p V s k]
  obtain st1 i where st1: "generate_step model C i2c sample st = Inr st1"
    "single_row V (running_context st1)"
    "draws st1 = draws st @ [\<lparr>cols2 = 1, data2 = [[i]]\<rparr>]"
    "res st1 = res st @ [the (i2c i)]" "in_vocab V i"
    by blast
  from Suc.IH [OF st1(2)]
  obtain st' ds where st': "generate_loop n model C i2c sample st1 = Inr st'"
    "single_row V (running_context st')"
    "res st' = res st1 @ map (\<lambda>d. the (i2c (drawn_index d))) ds"
    "draws st' = draws st1 @ ds" "length ds = n"
    "\<forall>d \<in> set ds. cols2 d = 1 \<and> (\<exists>i. data2 d = [[i]] \<and> in_vocab V i)"
    by blast
  let ?ds = "\<lparr>cols2 = 1, data2 = [[i]]\<rparr> # ds"
  have "generate_loop (Suc n) model C i2c sample st = Inr st'"
    using st1(1) st'(1) by simp
  moreover have "res st' = res st @ map (\<lambda>d. the (i2c (drawn_index d))) ?ds"
    using st'(3) st1(4) by (simp add: drawn_index_def)
  moreover have "draws st' = draws st @ ?ds" "length ?ds = Suc n"
    using st'(4,5) st1(3) by simp_all
  moreover have "\<forall>d \<in> set ?ds. cols2 d = 1 \<and> (\<exists>i. data2 d = [[i]] \<and> in_vocab V i)"
    using st'(6) st1(5) by simp
  ultimately show ?case using st'(2) by blast
qed

lemma generate_step_not_single:
  assumes "length (data2 (running_context st)) \<noteq> 1"
  shows "\<exists>e. generate_step model C i2c sample st = Inl e"
proof (cases "generate_step model C i2c sample st")
  case (Inl e)
  then show ?thesis by blast
next
  case (Inr st')
  then obtain p d g' ctx' i where
    d: "multinomial sample (softmax2 p) (rng st) = Inr (d, g')"
    and ct: "cat_cols (slice_cols (- C) (running_context st)) d = Inr ctx'"
    and it: "item d = Inr i"
    by (auto simp: generate_step_def Let_def and_then_eq_Inr split: prod.splits option.splits)
  from it obtain j where "data2 d = [[j]]"
    by (auto simp: item_def split: list.splits)
  then have "length (data2 (slice_cols (- C) (running_context st))) = 1"
    using ct by (auto simp: cat_cols_def split: if_splits)
  then have False using assms by (simp add: slice_cols_def Let_def)
  then show ?thesis ..
qed

lemma generate_loop_cols:
  assumes "0 < C" "generate_loop k model C i2c sample st0 = Inr st"
  shows "cols2 (running_context st) =
     (if k = 0 then cols2 (running_context st0)
      else min (cols2 (running_context st0) + k) (nat C + 1))"
  using assms(2)
proof (induction k arbitrary: st0)
  case 0
  then show ?case by simp
next
  case (Suc k)
  then obtain st1 where st1: "generate_step model C i2c sample st0 = Inr st1"
    "generate_loop k model C i2c sample st1 = Inr st"
    by (auto simp: and_then_eq_Inr)
  have c1: "cols2 (running_context st1) = min (cols2 (running_context st0)) (nat C) + 1"
    using generate_step_cols(1) [OF st1(1)] cols2_slice_cols [OF assms(1)] by simp
  show ?case
    using Suc.IH [OF st1(2)] c1 by (auto simp: min_def)
qed

lemma generate_loop_calls:
  assumes "0 < C" "generate_loop k model C i2c sample st0 = Inr st"
  shows "map cols2 (calls st) =
     map cols2 (calls st0) @ map (\<lambda>j. min (cols2 (running_context st0) + j) (nat C)) [0..<k]"
  using assms(2)
proof (induction k arbitrary: st0)
  case 0
  then show ?case by simp
next
  case (Suc k)
  then obtain st1 where st1: "generate_step model C i2c sample st0 = Inr st1"
    "generate_loop k model C i2c sample st1 = Inr st"
    by (auto simp: and_then_eq_Inr)
  have c1: "cols2 (running_context st1) = min (cols2 (running_context st0)) (nat C) + 1"
    using generate_step_cols(1) [OF st1(1)] cols2_slice_cols [OF assms(1)] by simp
  have "map (\<lambda>j. min (cols2 (running_context st1) + j) (nat C)) [0..<k]
      = map (\<lambda>j. min (cols2 (running_context st0) + Suc j) (nat C)) [0..<k]"
    by (rule map_cong) (auto simp: c1 min_def)
  also have "\<dots> = map (\<lambda>j. min (cols2 (running_context st0) + j) (nat C)) (map Suc [0..<k])"
    by (simp add: comp_def)
  also have "map Suc [0..<k] = [Suc 0..<Suc k]" by (rule map_Suc_upt)
  finally have tl: "map (\<lambda>j. min (cols2 (running_context st1) + j) (nat C)) [0..<k]
      = map (\<lambda>j. min (cols2 (running_context st0) + j) (nat C)) [Suc 0..<Suc k]" .
  have "[0..<Suc k] = 0 # [Suc 0..<Suc k]" by (simp add: upt_rec)
  then have "map (\<lambda>j. min (cols2 (running_context st0) + j) (nat C)) [0..<Suc k]
      = min (cols2 (running_context st0)) (nat C)
        # map (\<lambda>j. min (cols2 (running_context st0) + j) (nat C)) [Suc 0..<Suc k]"
    by (simp only: list.map) simp
  then show ?case
    using Suc.IH [OF st1(2)] generate_step_cols(2) [OF st1(1)] cols2_slice_cols [OF assms(1)]
    by (simp only: tl) simp
qed

lemma GPT_serves:
  assumes "GPT_wf m"
  shows "serves (GPT_forward m training keep) (context_length_of m) (vocab_size_of m)"
  unfolding serves_def
proof (intro allI impI)
  fix c
  assume a: "length (data2 c) = 1 \<and> wf2 c \<and> 0 < cols2 c \<and> cols2 c \<le> context_length_of m \<and>
          list_all (list_all (in_vocab (vocab_size_of m))) (data2 c)"
  then have "valid_context m c" by (simp add: valid_context_def)
  from GPT_forward_valid [OF assms this, of training keep] a
  show "\<exists>p. GPT_forward m training keep c = Inr p \<and> has_shape3 1 (cols2 c) (vocab_size_of m) p"
    by simp
qed

lemma draw_rows_length: "length (fst (draw_rows sample ps g)) = length ps"
proof (induction ps arbitrary: g)
  case Nil
  show ?case by simp
next
  case (Cons p ps)
  obtain i g' where s: "sample g p = (i, g')" by (cases "sample g p")
  obtain rest g'' where r: "draw_rows sample ps g' = (rest, g'')"
    by (cases "draw_rows sample ps g'")
  have "length rest = length ps" using Cons.IH [of g'] r by simp
  then show ?case using s r by simp
qed

lemma item_not_single: "length (data2 d) \<noteq> 1 \<Longrightarrow> item d = Inl RuntimeError"
  by (auto simp: item_def split: list.splits)

lemma generate_step_batch:
  assumes c: "c' = slice_cols (- C) (running_context st)" "length (data2 c') \<noteq> 1"
    and m: "model c' = Inr p" "has_shape3 (length (data2 c')) (cols2 c') V p"
      "0 < cols2 c'" "0 < V"
  shows "generate_step model C i2c sample st = Inl RuntimeError"
proof -
  have p: "dim1 p = cols2 c'" "dim2 p = V" "length (data3 p) = length (data2 c')"
    using m(2) by (simp_all add: has_shape3_iff)
  let ?probs = "softmax2 \<lparr>cols2 = V, data2 = map last (data3 p)\<rparr>"
  obtain d g' where dr: "draw_rows sample (data2 ?probs) (rng st) = (d, g')"
    by (cases "draw_rows sample (data2 ?probs) (rng st)")
  have len: "length d = length (data2 c')"
    using draw_rows_length [of sample "data2 ?probs" "rng st"] dr p(3)
    by (simp add: softmax2_def)
  have "item \<lparr>cols2 = 1, data2 = d\<rparr> = Inl RuntimeError"
    using item_not_single [of "\<lparr>cols2 = 1, data2 = d\<rparr>"] len c(2) by simp
  then show ?thesis
    using c(1) m(1,3,4) p dr len
    by (simp add: generate_step_def Let_def select_last_def multinomial_def cat_cols_def
        softmax2_def)
qed

lemma generate_loop_res:
  "generate_loop k model C i2c sample st0 = Inr st \<Longrightarrow> length (res st) = length (res st0) + k"
proof (induction k arbitrary: st0)
  case 0
  then show ?case by simp
next
  case (Suc k)
  then obtain st1 where st1: "generate_step model C i2c sample st0 = Inr st1"
    "generate_loop k model C i2c sample st1 = Inr st"
    by (auto simp: and_then_eq_Inr)
  show ?case using Suc.IH [OF st1(2)] generate_step_cols(3) [OF st1(1)] by simp
qed

lemma serves_mono: "serves model C V \<Longrightarrow> C' \<le> C \<Longrightarrow> serves model C' V"
  unfolding serves_def by (meson le_trans)

lemma generate_step_draw:
  assumes "generate_step model C i2c sample st = Inr st'"
  shows "\<exists>d i ch. draws st' = draws st @ [d] \<and> cols2 d = 1 \<and> data2 d = [[i]] \<and>
           i2c i = Some ch \<and> res st' = res st @ [ch]"
proof -
  from assms obtain p d g' ctx' i where
    d: "multinomial sample (softmax2 p) (rng st) = Inr (d, g')"
    and it: "item d = Inr i"
    and r: "(case i2c i of None \<Rightarrow> Inl KeyError
             | Some ch \<Rightarrow> Inr \<lparr>running_context = ctx', res = res st @ [ch], rng = g',
                  calls = calls st @ [slice_cols (- C) (running_context st)],
                  draws = draws st @ [d]\<rparr>) = Inr st'"
    by (auto simp: generate_step_def Let_def and_then_eq_Inr split: prod.splits)
  from r obtain ch where ch: "i2c i = Some ch" "draws st' = draws st @ [d]"
    "res st' = res st @ [ch]"
    by (cases "i2c i") auto
  have c: "cols2 d = 1"
    using d by (auto simp: multinomial_def Let_def split: if_splits prod.splits)
  have "data2 d = [[i]]"
    using it by (auto simp: item_def split: list.splits)
  then show ?thesis using ch c by blast
qed

lemma generate_loop_draws:
  assumes "generate_loop k model C i2c sample st0 = Inr st"
  shows "\<exists>ds. draws st = draws st0 @ ds \<and> length ds = k \<and>
           (\<forall>d \<in> set ds. cols2 d = 1 \<and> (\<exists>i. data2 d = [[i]])) \<and>
           res st = res st0 @ map (\<lambda>d. the (i2c (drawn_index d))) ds"
  using assms
proof (induction k arbitrary: st0)
  case 0
  then show ?case by simp
next
  case (Suc k)
  then obtain st1 where st1: "generate_step model C i2c sample st0 = Inr st1"
    "generate_loop k model C i2c sample st1 = Inr st"
    by (auto simp: and_then_eq_Inr)
  from generate_step_draw [OF st1(1)]
  obtain d i ch where d: "draws st1 = draws st0 @ [d]" "cols2 d = 1" "data2 d = [[i]]"
    "i2c i = Some ch" "res st1 = res st0 @ [ch]"
    by blast
  from Suc.IH [OF st1(2)]
  obtain ds where ds: "draws st = draws st1 @ ds" "length ds = k"
    "\<forall>d \<in> set ds. cols2 d = 1 \<and> (\<exists>i. data2 d = [[i]])"
    "res st = res st1 @ map (\<lambda>d. the (i2c (drawn_index d))) ds"
    by blast
  have "draws st = draws st0 @ (d # ds)" "length (d # ds) = Suc k"
    using ds(1,2) d(1) by simp_all
  moreover have "\<forall>x \<in> set (d # ds). cols2 x = 1 \<and> (\<exists>i. data2 x = [[i]])"
    using ds(3) d(2,3) by simp
  moreover have "res st = res st0 @ map (\<lambda>d. the (i2c (drawn_index d))) (d # ds)"
    using ds(4) d(3,4,5) by (simp add: drawn_index_def)
  ultimately show ?case by blast
qed

section \<open>The constructors\<close>

lemma sequence_map_ex:
  assumes "\<And>x. x \<in> set xs \<Longrightarrow> \<exists>y. f x = Inr y \<and> P y"
  shows "\<exists>ys. sequence (map f xs) = Inr ys \<and> length ys = length xs \<and> list_all P ys"
  using assms
proof (induction xs)
  case Nil
  show ?case by simp
next
  case (Cons x xs)
  obtain y where y: "f x = Inr y" "P y" using Cons.prems [of x] by auto
  obtain ys where ys: "sequence (map f xs) = Inr ys" "length ys = length xs" "list_all P ys"
    using Cons.IH Cons.prems by auto
  show ?case using y ys by simp
qed

lemma Linear_init_wf:
  assumes "0 \<le> i" "0 \<le> o'"
  shows "\<exists>L. Linear_init i o' b g = Inr L \<and> Linear_wf (nat i) (nat o') L"
  using assms by (simp add: Linear_init_def Linear_wf_def list_all_iff)

lemma LayerNorm_init_wf:
  assumes "0 \<le> d"
  shows "\<exists>N. LayerNorm_init d = Inr N \<and> LayerNorm_wf (nat d) N"
  using assms by (simp add: LayerNorm_init_def LayerNorm_wf_def)

lemma Embedding_init_wf:
  assumes "0 \<le> n" "0 \<le> d"
  shows "\<exists>E. Embedding_init n d g = Inr E \<and> Embedding_wf (nat n) (nat d) E"
  using assms by (simp add: Embedding_init_def Embedding_wf_def list_all_iff)

lemma SingleHeadAttention_init_wf:
  assumes "0 \<le> d" "0 \<le> hs"
  shows "\<exists>h. SingleHeadAttention_init d hs g = Inr h \<and> SingleHeadAttention_wf (nat d) (nat hs) h"
proof -
  obtain k where k: "Linear_init d hs False (sub 0 g) = Inr k" "Linear_wf (nat d) (nat hs) k"
    using Linear_init_wf [OF assms] by blast
  obtain q where q: "Linear_init d hs False (sub 1 g) = Inr q" "Linear_wf (nat d) (nat hs) q"
    using Linear_init_wf [OF assms] by blast
  obtain v where v: "Linear_init d hs False (sub 2 g) = Inr v" "Linear_wf (nat d) (nat hs) v"
    using Linear_init_wf [OF assms] by blast
  show ?thesis
    using k q v by (simp add: SingleHeadAttention_init_def SingleHeadAttention_wf_def)
qed

lemma MultiHeadedSelfAttention_init_built:
  assumes "0 \<le> d"
  shows "\<exists>m. MultiHeadedSelfAttention_init d H g = Inr m \<and>
           MultiHeadedSelfAttention_built (nat d) (nat H) (nat (d div H)) m"
proof -
  have "\<exists>h. SingleHeadAttention_init d (d div H) (sub i (sub 0 g)) = Inr h \<and>
          SingleHeadAttention_wf (nat d) (nat (d div H)) h" if "i \<in> set [0..<nat H]" for i
  proof -
    have "0 < H" using that by auto
    then have "0 \<le> d div H" using assms by (simp add: pos_imp_zdiv_nonneg_iff)
    then show ?thesis by (rule SingleHeadAttention_init_wf [OF assms])
  qed
  from sequence_map_ex [of "[0..<nat H]"
      "\<lambda>i. SingleHeadAttention_init d (d div H) (sub i (sub 0 g))"
      "SingleHeadAttention_wf (nat d) (nat (d div H))", OF this]
  obtain heads where heads:
    "sequence (map (\<lambda>i. SingleHeadAttention_init d (d div H) (sub i (sub 0 g))) [0..<nat H]) = Inr heads"
    "length heads = nat H" "list_all (SingleHeadAttention_wf (nat d) (nat (d div H))) heads"
    by auto
  obtain c where c: "Linear_init d d True (sub 1 g) = Inr c" "Linear_wf (nat d) (nat d) c"
    using Linear_init_wf [OF assms assms] by blast
  show ?thesis
    using heads c by (simp add: MultiHeadedSelfAttention_init_def MultiHeadedSelfAttention_built_def)
qed

lemma VanillaNeuralNetwork_init_wf:
  assumes "0 \<le> d"
  shows "\<exists>n. VanillaNeuralNetwork_init d g = Inr n \<and> VanillaNeuralNetwork_wf (nat d) n"
proof -
  have d4: "0 \<le> d * 4" "nat (d * 4) = nat d * 4" using assms by (simp_all add: nat_mult_distrib)
  obtain l1 where l1: "Linear_init d (d * 4) True (sub 0 g) = Inr l1"
    "Linear_wf (nat d) (nat (d * 4)) l1"
    using Linear_init_wf [OF assms d4(1)] by blast
  obtain l2 where l2: "Linear_init (d * 4) d True (sub 1 g) = Inr l2"
    "Linear_wf (nat (d * 4)) (nat d) l2"
    using Linear_init_wf [OF d4(1) assms] by blast
  show ?thesis
    using l1 l2 d4(2) by (simp add: VanillaNeuralNetwork_init_def VanillaNeuralNetwork_wf_def)
qed

lemma TransformerBlock_init_built:
  assumes "0 \<le> d"
  shows "\<exists>blk. TransformerBlock_init d H g = Inr blk \<and>
           TransformerBlock_built (nat d) (nat H) (nat (d div H)) blk"
proof -
  obtain a where a: "MultiHeadedSelfAttention_init d H (sub 0 g) = Inr a"
    "MultiHeadedSelfAttention_built (nat d) (nat H) (nat (d div H)) a"
    using MultiHeadedSelfAttention_init_built [OF assms] by blast
  obtain n where n: "VanillaNeuralNetwork_init d (sub 1 g) = Inr n"
    "VanillaNeuralNetwork_wf (nat d) n"
    using VanillaNeuralNetwork_init_wf [OF assms] by blast
  obtain N where N: "LayerNorm_init d = Inr N" "LayerNorm_wf (nat d) N"
    using LayerNorm_init_wf [OF assms] by blast
  show ?thesis
    using a n N by (simp add: TransformerBlock_init_def TransformerBlock_built_def)
qed

lemma GPT_init_built:
  assumes "0 \<le> V" "0 \<le> C" "0 \<le> d"
  shows "\<exists>m. GPT_init V C d nb H g = Inr m \<and>
           Embedding_wf (nat V) (nat d) (token_embedding m) \<and>
           Embedding_wf (nat C) (nat d) (pos_embedding m) \<and>
           length (transformer_blocks m) = nat nb \<and>
           list_all (TransformerBlock_built (nat d) (nat H) (nat (d div H))) (transformer_blocks m) \<and>
           LayerNorm_wf (nat d) (layer_norm_three m) \<and>
           Linear_wf (nat d) (nat V) (vocab_projection m)"
proof -
  obtain te where te: "Embedding_init V d (sub 0 g) = Inr te" "Embedding_wf (nat V) (nat d) te"
    using Embedding_init_wf [OF assms(1,3)] by blast
  obtain pe where pe: "Embedding_init C d (sub 1 g) = Inr pe" "Embedding_wf (nat C) (nat d) pe"
    using Embedding_init_wf [OF assms(2,3)] by blast
  from sequence_map_ex [of "[0..<nat nb]" "\<lambda>i. TransformerBlock_init d H (sub i (sub 2 g))"
      "TransformerBlock_built (nat d) (nat H) (nat (d div H))"]
    TransformerBlock_init_built [OF assms(3)]
  obtain blocks where blocks:
    "sequence (map (\<lambda>i. TransformerBlock_init d H (sub i (sub 2 g))) [0..<nat nb]) = Inr blocks"
    "length blocks = nat nb"
    "list_all (TransformerBlock_built (nat d) (nat H) (nat (d div H))) blocks"
    by auto
  obtain N where N: "LayerNorm_init d = Inr N" "LayerNorm_wf (nat d) N"
    using LayerNorm_init_wf [OF assms(3)] by blast
  obtain vp where vp: "Linear_init d V True (sub 3 g) = Inr vp" "Linear_wf (nat d) (nat V) vp"
    using Linear_init_wf [OF assms(3,1)] by blast
  show ?thesis
    using te pe blocks N vp by (simp add: GPT_init_def)
qed

lemma built_divisible_wf:
  assumes "TransformerBlock_built (nat d) (nat H) (nat (d div H)) blk" "0 < H" "H dvd d" "0 < d"
  shows "TransformerBlock_wf (nat d) blk"
proof -
  have "nat H dvd nat d"
    using assms(2,3,4) by (simp add: nat_dvd_iff)
  then have m: "nat d mod nat H = 0" by (rule dvd_imp_mod_0)
  have p: "0 < nat d" using assms(4) by simp
  have "nat d div nat H = nat (d div H)"
    using assms(2,4) by (simp add: nat_div_distrib)
  then show ?thesis
    using assms(1,2) m p
    by (auto simp: TransformerBlock_built_def TransformerBlock_wf_def
        MultiHeadedSelfAttention_built_def MultiHeadedSelfAttention_wf_def)
qed

lemma GPT_init_wf:
  assumes "0 \<le> V" "0 \<le> C" "0 < d" "nb \<le> 0 \<or> (0 < H \<and> H dvd d)"
  shows "\<exists>m. GPT_init V C d nb H g = Inr m \<and> GPT_wf m \<and> vocab_size_of m = nat V \<and>
           context_length_of m = nat C \<and> model_dim_of m = nat d"
proof -
  have d0: "0 \<le> d" using assms(3) by simp
  from GPT_init_built [OF assms(1,2) d0, of nb H g]
  obtain m where m: "GPT_init V C d nb H g = Inr m"
    "Embedding_wf (nat V) (nat d) (token_embedding m)"
    "Embedding_wf (nat C) (nat d) (pos_embedding m)"
    "length (transformer_blocks m) = nat nb"
    "list_all (TransformerBlock_built (nat d) (nat H) (nat (d div H))) (transformer_blocks m)"
    "LayerNorm_wf (nat d) (layer_norm_three m)"
    "Linear_wf (nat d) (nat V) (vocab_projection m)"
    by blast
  have dims: "vocab_size_of m = nat V" "context_length_of m = nat C" "model_dim_of m = nat d"
    using m(2,3) by (simp_all add: Embedding_wf_def vocab_size_of_def context_length_of_def
        model_dim_of_def)
  have "list_all (TransformerBlock_wf (nat d)) (transformer_blocks m)"
  proof (cases "nb \<le> 0")
    case True
    then show ?thesis using m(4) by simp
  next
    case False
    then have "0 < H" "H dvd d" using assms(4) by simp_all
    then show ?thesis
      using m(5) built_divisible_wf [OF _ \<open>0 < H\<close> \<open>H dvd d\<close> assms(3)]
      by (auto simp: list_all_iff)
  qed
  then have "GPT_wf m" using m(2,3,6,7) dims assms(3) by (simp add: GPT_wf_def)
  then show ?thesis using m(1) dims by blast
qed

section \<open>A number of heads that does not divide the model width\<close>

lemma heads_mismatch:
  assumes "\<not> H dvd d" "0 \<le> d"
  shows "nat H * nat (d div H) \<noteq> nat d"
proof (cases "0 < H")
  case False
  then have "nat H = 0" by simp
  moreover have "d \<noteq> 0" using assms(1) by auto
  ultimately show ?thesis using assms(2) by simp
next
  case True
  have "0 \<le> d div H" using True assms(2) by (simp add: pos_imp_zdiv_nonneg_iff)
  then have "nat H * nat (d div H) = nat (H * (d div H))"
    using True by (simp add: nat_mult_distrib)
  moreover have "H * (d div H) \<noteq> d"
    using assms(1) by (metis dvd_triv_left)
  moreover have "0 \<le> H * (d div H)" using True \<open>0 \<le> d div H\<close> by simp
  ultimately show ?thesis using assms(2) by simp
qed

lemma MultiHeadedSelfAttention_forward_mismatch:
  assumes built: "MultiHeadedSelfAttention_built d H hs m" and ne: "H * hs \<noteq> d"
    and x: "has_shape3 B T d x"
  shows "MultiHeadedSelfAttention_forward m training keep x = Inl RuntimeError"
proof -
  let ?G = "\<lambda>h. \<lparr>dim1 = T, dim2 = hs, data3 = map (head_out h T) (data3 x)\<rparr>"
  have heads: "\<And>h. h \<in> set (attention_heads m) \<Longrightarrow> SingleHeadAttention_wf d hs h"
    and len: "length (attention_heads m) = H" and c: "Linear_wf d d (compute m)"
    using built by (simp_all add: MultiHeadedSelfAttention_built_def list_all_iff)
  have sx: "sequence (map (\<lambda>head. SingleHeadAttention_forward head x) (attention_heads m))
      = Inr (map ?G (attention_heads m))"
    by (rule sequence_map_total) (simp add: SingleHeadAttention_forward_batch [OF heads x])
  show ?thesis
  proof (cases "attention_heads m = []")
    case True
    then show ?thesis by (simp add: MultiHeadedSelfAttention_forward_def cat_def)
  next
    case False
    have xx: "both 0 B T d x x" using x by (simp add: both_refl)
    have "list_all2 (both 0 B T hs) (map ?G (attention_heads m)) (map ?G (attention_heads m))"
      using both_head [OF heads xx] by (simp add: list_all2_map1 list_all2_map2 list_all2_same)
    from both_cat [OF this] False
    obtain cx where cat: "cat (map ?G (attention_heads m)) = Inr cx"
      "has_shape3 B T (length (attention_heads m) * hs) cx"
      by (auto simp: both_def)
    have "dim2 cx \<noteq> in_features (compute m)"
      using cat(2) c ne len by (simp add: has_shape3_def Linear_wf_def)
    then have "Linear_forward (compute m) cx = Inl RuntimeError"
      by (simp add: Linear_forward_def)
    then show ?thesis
      unfolding MultiHeadedSelfAttention_forward_def sx using cat(1) by simp
  qed
qed

lemma TransformerBlock_forward_mismatch:
  assumes built: "TransformerBlock_built d H hs blk" and ne: "H * hs \<noteq> d"
    and x: "has_shape3 B T d x"
  shows "TransformerBlock_forward blk training k1 k2 x = Inl RuntimeError"
proof -
  have a: "MultiHeadedSelfAttention_built d H hs (mhsa blk)"
    and n1: "LayerNorm_wf d (layer_norm_one blk)"
    using built by (simp_all add: TransformerBlock_built_def)
  have n: "LayerNorm_forward (layer_norm_one blk) x
      = Inr \<lparr>dim1 = T, dim2 = d, data3 = map (map (layer_norm (layer_norm_one blk))) (data3 x)\<rparr>"
    (is "_ = Inr ?n")
    by (rule LayerNorm_forward_shape(1) [OF n1 x])
  have "has_shape3 B T d ?n" by (rule LayerNorm_forward_shape(2) [OF n1 x])
  from MultiHeadedSelfAttention_forward_mismatch [OF a ne this]
  show ?thesis by (simp add: TransformerBlock_forward_def n)
qed

lemma GPT_forward_mismatch:
  assumes te: "Embedding_wf V d (token_embedding m)" and pe: "Embedding_wf C d (pos_embedding m)"
    and blks: "transformer_blocks m \<noteq> []" "list_all (TransformerBlock_built d H hs) (transformer_blocks m)"
    and ne: "H * hs \<noteq> d" and v: "valid_context m c"
  shows "GPT_forward m training keep c = Inl RuntimeError"
proof -
  have V: "vocab_size_of m = V" and C: "context_length_of m = C"
    using te pe by (simp_all add: Embedding_wf_def vocab_size_of_def context_length_of_def)
  have c: "wf2 c" "list_all (list_all (in_vocab V)) (data2 c)" "cols2 c \<le> C"
    using v V C by (simp_all add: valid_context_def)
  from both_embedded [OF te pe c(1,2) c(1,2) refl refl refl refl c(3), where n = 0]
  obtain e where e: "and_then (Embedding_forward2 (token_embedding m) c)
      (\<lambda>tok. and_then (Embedding_forward1 (pos_embedding m) (arange (cols2 c))) (add_broadcast tok))
      = Inr e" "has_shape3 (length (data2 c)) (cols2 c) d e"
    by (auto simp: both_def)
  obtain blk rest where br: "transformer_blocks m = blk # rest" "TransformerBlock_built d H hs blk"
    using blks by (cases "transformer_blocks m") auto
  have "Sequential_forward (transformer_blocks m) training keep 0 e = Inl RuntimeError"
    using TransformerBlock_forward_mismatch [OF br(2) ne e(2)] br(1) by simp
  then show ?thesis
    using e(1) unfolding GPT_forward_def Let_def
    by (auto simp: and_then_eq_Inr and_then_def split: sum.splits)
qed

section \<open>The attention weights in exact arithmetic\<close>

text \<open>
  In exact arithmetic every query row \<open>i\<close> of the attention weights of a head (of
  size at least 1) sums to 1 over the positions \<open>j \<le> i\<close> and is 0 at every position
  \<open>j > i\<close>. This is a fact about the real-valued \<open>softmax\<close> of this theory only:
  the program computes in 32-bit floats, where a row sums to 1 up to rounding and is
  NaN when a score overflows.
\<close>

lemma exact_attention_rows:
  "SingleHeadAttention_wf d hs h \<and> 0 < hs \<and> has_shape3 B T d x \<longrightarrow>
   (\<exists>scores V. attention_weights h x = Inr (scores, V) \<and> has_shape3 B T T scores \<and>
      (\<forall>b<B. \<forall>i<T. sum_list (take (Suc i) (data3 scores ! b ! i)) = 1 \<and>
                     (\<forall>j. i < j \<and> j < T \<longrightarrow> data3 scores ! b ! i ! j = 0)))"
proof
  assume a: "SingleHeadAttention_wf d hs h \<and> 0 < hs \<and> has_shape3 B T d x"
  then have wf: "SingleHeadAttention_wf d hs h" and x: "has_shape3 B T d x" by simp_all
  let ?S = "\<lparr>dim1 = T, dim2 = T, data3 = map (\<lambda>xs. fst (head_batch h T xs)) (data3 x)\<rparr>"
  have B: "length (data3 x) = B" using x by (simp add: has_shape3_iff)
  have row: "data3 ?S ! b ! i = weight_row h (data3 x ! b) i \<and> length (data3 x ! b) = T"
    if "b < B" "i < T" for b i
  proof -
    have len: "length (data3 x ! b) = T" using x that by (simp add: has_shape3_iff)
    then show ?thesis
      using head_batch_weights_row [of i "data3 x ! b" h] that B by simp
  qed
  have len: "length (data3 ?S ! b) = T" if "b < B" for b
  proof -
    have "length (data3 x ! b) = T" using x that by (simp add: has_shape3_iff)
    then show ?thesis using length_head_batch_weights [of h "data3 x ! b"] that B by simp
  qed
  have shape: "has_shape3 B T T ?S"
    unfolding has_shape3_iff using B len row by simp
  have "sum_list (take (Suc i) (data3 ?S ! b ! i)) = 1 \<and>
        (\<forall>j. i < j \<and> j < T \<longrightarrow> data3 ?S ! b ! i ! j = 0)" if "b < B" "i < T" for b i
    using row [OF that] weight_row_sum [of i "data3 x ! b" h]
      weight_row_masked [of i _ "data3 x ! b" h] that
    by (simp del: upt_Suc)
  then show "\<exists>scores V. attention_weights h x = Inr (scores, V) \<and> has_shape3 B T T scores \<and>
      (\<forall>b<B. \<forall>i<T. sum_list (take (Suc i) (data3 scores ! b ! i)) = 1 \<and>
                     (\<forall>j. i < j \<and> j < T \<longrightarrow> data3 scores ! b ! i ! j = 0))"
    using attention_weights_batch [OF wf x] shape by blast
qed

section \<open>The small instances are well formed\<close>

lemma tiny_linear_wf: "Linear_wf i o' (tiny_linear i o' b)"
  by (simp add: Linear_wf_def tiny_linear_def list_all_iff)

lemma tiny_head_wf: "SingleHeadAttention_wf 2 1 tiny_head"
  by (simp add: SingleHeadAttention_wf_def tiny_head_def tiny_linear_wf)

lemma tiny_block_wf: "TransformerBlock_wf 2 tiny_block"
proof -
  have "(2::nat) mod Suc (Suc 0) = 0" "(2::nat) div Suc (Suc 0) = 1"
    by (simp_all add: numeral_2_eq_2)
  moreover have "SingleHeadAttention_wf 2 (Suc 0) tiny_head"
    using tiny_head_wf by simp
  ultimately show ?thesis
    using tiny_linear_wf [of 2 8 True] tiny_linear_wf [of 8 2 True]
    by (simp add: TransformerBlock_wf_def tiny_block_def MultiHeadedSelfAttention_wf_def
        VanillaNeuralNetwork_wf_def LayerNorm_wf_def tiny_norm_def tiny_linear_wf)
qed

lemma tiny_gpt_wf: "GPT_wf tiny_gpt"
  by (simp add: GPT_wf_def tiny_gpt_def model_dim_of_def vocab_size_of_def context_length_of_def
      Embedding_wf_def LayerNorm_wf_def tiny_norm_def tiny_block_wf tiny_linear_wf)

lemma categorical_always_first: "categorical always_first"
  by (auto simp: categorical_def always_first_def)

lemma int_to_char_keys: "in_vocab 2 i \<Longrightarrow> int_to_char i \<noteq> None"
proof -
  assume "in_vocab 2 i"
  then have "i = 0 \<or> i = 1" by (auto simp: in_vocab_def)
  then show ?thesis by (auto simp: int_to_char_def int_to_char_table_def)
qed

lemma tiny_gpt_dims: "context_length_of tiny_gpt = 3" "vocab_size_of tiny_gpt = 2"
  by (simp_all add: tiny_gpt_def context_length_of_def vocab_size_of_def)

lemma tiny_c1_single: "single_row 2 tiny_c1"
  by (simp add: single_row_def tiny_c1_def wf2_def in_vocab_def)

lemma tiny_serves: "serves (GPT_forward tiny_gpt False keep) 3 2"
  using GPT_serves [OF tiny_gpt_wf, of False keep] by (simp add: tiny_gpt_dims)

lemma tiny_run:
  assumes "0 < C" "C \<le> 3"
  shows "\<exists>st. generate_loop k (GPT_forward tiny_gpt False (\<lambda>s b t d. True)) C int_to_char
           always_first \<lparr>running_context = tiny_c1, res = [], rng = (), calls = [], draws = []\<rparr>
         = Inr st"
proof -
  let ?st0 = "\<lparr>running_context = tiny_c1, res = [], rng = (), calls = [], draws = []\<rparr>"
  have srv: "serves (GPT_forward tiny_gpt False (\<lambda>s b t d. True)) (nat C) 2"
    using serves_mono [OF tiny_serves, of "nat C"] assms by simp
  have "\<exists>st' ds. generate_loop k (GPT_forward tiny_gpt False (\<lambda>s b t d. True)) C int_to_char
           always_first ?st0 = Inr st' \<and>
           single_row 2 (running_context st') \<and>
           res st' = res ?st0 @ map (\<lambda>d. the (int_to_char (drawn_index d))) ds \<and>
           draws st' = draws ?st0 @ ds \<and> length ds = k \<and>
           (\<forall>d \<in> set ds. cols2 d = 1 \<and> (\<exists>i. data2 d = [[i]] \<and> in_vocab 2 i))"
    by (rule generate_loop_single [OF srv assms(1) _ categorical_always_first])
       (use int_to_char_keys tiny_c1_single in simp_all)
  then show ?thesis by blast
qed

text \<open>
  The forward pass of a head, evaluated: on \<open>tiny_x\<close> and \<open>tiny_y\<close>, which differ
  at the last position only, the outputs are the running means, equal at the first two
  positions and different at the last.
\<close>

lemma upt3: "[0..<3] = [0, 1, 2]" "[0..<1] = [0]" "[0..<2] = [0, 1]"
  by (simp_all add: upt_rec)

lemma rep3: "replicate 3 x = [x, x, x]"
  by (simp add: numeral_3_eq_3)

lemma mean_head_example:
  "SingleHeadAttention_forward mean_head tiny_x
     = Inr \<lparr>dim1 = 3, dim2 = 1, data3 = [[[1], [2], [3]]]\<rparr>"
  "SingleHeadAttention_forward mean_head tiny_y
     = Inr \<lparr>dim1 = 3, dim2 = 1, data3 = [[[1], [2], [11 / 3]]]\<rparr>"
  by (simp_all add: SingleHeadAttention_forward_def attention_weights_def mean_head_def tiny_x_def
      tiny_y_def Linear_forward_def affine_def dot_def matmul_def transpose12_def div_scalar_def
      tril_def ones_def eq_zero_def masked_fill_def softmax3_def softmax_def Let_def upt3
      enumerate_eq_zip rep3)

section \<open>The properties of the specification\<close>

text \<open>
  C1. Causality. Two inputs of one shape that agree at every position \<open>\<le> i\<close> give
  outputs that agree at every position \<open>\<le> i\<close>, whatever stands at the positions
  \<open>> i\<close>: for the attention output of a head, and for the logits of the model (in
  either mode; in training mode with the same dropout draws).
\<close>

theorem causality:
  "(SingleHeadAttention_wf d hs h \<and> has_shape3 B T d x \<and> has_shape3 B T d y \<and>
    map (take (Suc i)) (data3 x) = map (take (Suc i)) (data3 y)
    \<longrightarrow> (\<exists>x' y'. SingleHeadAttention_forward h x = Inr x' \<and>
                 SingleHeadAttention_forward h y = Inr y' \<and>
                 map (take (Suc i)) (data3 x') = map (take (Suc i)) (data3 y')))
   \<and>
   (GPT_wf m \<and> valid_context m c1 \<and> valid_context m c2 \<and>
    length (data2 c1) = length (data2 c2) \<and> cols2 c1 = cols2 c2 \<and>
    map (take (Suc i)) (data2 c1) = map (take (Suc i)) (data2 c2)
    \<longrightarrow> (\<exists>l1 l2. GPT_forward m training keep c1 = Inr l1 \<and>
                 GPT_forward m training keep c2 = Inr l2 \<and>
                 map (take (Suc i)) (data3 l1) = map (take (Suc i)) (data3 l2)))"
proof (intro conjI impI)
  assume a: "SingleHeadAttention_wf d hs h \<and> has_shape3 B T d x \<and> has_shape3 B T d y \<and>
    map (take (Suc i)) (data3 x) = map (take (Suc i)) (data3 y)"
  then have wf: "SingleHeadAttention_wf d hs h" and x: "has_shape3 B T d x"
    and y: "has_shape3 B T d y"
    and eq: "map (take (Suc i)) (data3 x) = map (take (Suc i)) (data3 y)"
    by simp_all
  have len: "length (data3 x) = B" "length (data3 y) = B"
    using x y by (simp_all add: has_shape3_def)
  have "take (Suc i) (data3 x ! b) = take (Suc i) (data3 y ! b)" if "b < B" for b
    using arg_cong [OF eq, of "\<lambda>l. l ! b"] that len by simp
  then have xy: "both (Suc i) B T d x y" using x y by (simp add: both_def)
  let ?x' = "\<lparr>dim1 = T, dim2 = hs, data3 = map (head_out h T) (data3 x)\<rparr>"
  let ?y' = "\<lparr>dim1 = T, dim2 = hs, data3 = map (head_out h T) (data3 y)\<rparr>"
  have b: "both (Suc i) B T hs ?x' ?y'" by (rule both_head [OF wf xy])
  have "map (take (Suc i)) (data3 ?x') = map (take (Suc i)) (data3 ?y')"
    by (rule nth_equalityI) (use b len in \<open>simp_all add: both_def\<close>)
  then show "\<exists>x' y'. SingleHeadAttention_forward h x = Inr x' \<and>
                 SingleHeadAttention_forward h y = Inr y' \<and>
                 map (take (Suc i)) (data3 x') = map (take (Suc i)) (data3 y')"
    using SingleHeadAttention_forward_batch [OF wf x] SingleHeadAttention_forward_batch [OF wf y]
    by blast
next
  assume a: "GPT_wf m \<and> valid_context m c1 \<and> valid_context m c2 \<and>
    length (data2 c1) = length (data2 c2) \<and> cols2 c1 = cols2 c2 \<and>
    map (take (Suc i)) (data2 c1) = map (take (Suc i)) (data2 c2)"
  then have wf: "GPT_wf m" and v: "valid_context m c1" "valid_context m c2"
    and len: "length (data2 c2) = length (data2 c1)" and T: "cols2 c2 = cols2 c1"
    and eq: "map (take (Suc i)) (data2 c1) = map (take (Suc i)) (data2 c2)"
    by simp_all
  have pre: "take (Suc i) (data2 c1 ! b) = take (Suc i) (data2 c2 ! b)"
    if "b < length (data2 c1)" for b
    using arg_cong [OF eq, of "\<lambda>l. l ! b"] that len by simp
  from both_GPT [OF wf v refl len refl T pre, of training keep]
  obtain l1 l2 where l: "GPT_forward m training keep c1 = Inr l1"
    "GPT_forward m training keep c2 = Inr l2"
    "both (Suc i) (length (data2 c1)) (cols2 c1) (vocab_size_of m) l1 l2"
    by blast
  have "map (take (Suc i)) (data3 l1) = map (take (Suc i)) (data3 l2)"
    by (rule nth_equalityI) (use l(3) in \<open>simp_all add: both_def has_shape3_def\<close>)
  then show "\<exists>l1 l2. GPT_forward m training keep c1 = Inr l1 \<and>
                 GPT_forward m training keep c2 = Inr l2 \<and>
                 map (take (Suc i)) (data3 l1) = map (take (Suc i)) (data3 l2)"
    using l(1,2) by blast
qed

theorem causality_witness:
  "SingleHeadAttention_wf 2 1 tiny_head \<and> has_shape3 1 3 2 tiny_x \<and> has_shape3 1 3 2 tiny_y \<and>
   map (take 2) (data3 tiny_x) = map (take 2) (data3 tiny_y) \<and> tiny_x \<noteq> tiny_y \<and>
   (\<exists>x' y'. SingleHeadAttention_forward tiny_head tiny_x = Inr x' \<and>
            SingleHeadAttention_forward tiny_head tiny_y = Inr y' \<and>
            map (take 2) (data3 x') = map (take 2) (data3 y')) \<and>
   GPT_wf tiny_gpt \<and> valid_context tiny_gpt tiny_c1 \<and> valid_context tiny_gpt tiny_c2 \<and>
   map (take 2) (data2 tiny_c1) = map (take 2) (data2 tiny_c2) \<and> tiny_c1 \<noteq> tiny_c2 \<and>
   (\<exists>l1 l2. GPT_forward tiny_gpt True (\<lambda>s b t d. even (s + t + d)) tiny_c1 = Inr l1 \<and>
            GPT_forward tiny_gpt True (\<lambda>s b t d. even (s + t + d)) tiny_c2 = Inr l2 \<and>
            map (take 2) (data3 l1) = map (take 2) (data3 l2))"
proof -
  have v: "valid_context tiny_gpt tiny_c1" "valid_context tiny_gpt tiny_c2"
    by (simp_all add: valid_context_def wf2_def tiny_gpt_def context_length_of_def
        vocab_size_of_def in_vocab_def tiny_c1_def tiny_c2_def)
  have s: "has_shape3 1 3 2 tiny_x" "has_shape3 1 3 2 tiny_y"
    by (simp_all add: has_shape3_def wf3_def tiny_x_def tiny_y_def)
  have e: "map (take 2) (data3 tiny_x) = map (take 2) (data3 tiny_y)" "tiny_x \<noteq> tiny_y"
    "map (take 2) (data2 tiny_c1) = map (take 2) (data2 tiny_c2)" "tiny_c1 \<noteq> tiny_c2"
    "length (data2 tiny_c1) = length (data2 tiny_c2)" "cols2 tiny_c1 = cols2 tiny_c2"
    by (simp_all add: tiny_x_def tiny_y_def tiny_c1_def tiny_c2_def)
  have two: "Suc 1 = 2" by simp
  show ?thesis
    using causality [where d = 2 and hs = 1 and h = tiny_head and B = 1 and T = 3
        and x = tiny_x and y = tiny_y and i = 1 and m = tiny_gpt and ?c1.0 = tiny_c1
        and ?c2.0 = tiny_c2 and training = True and keep = "\<lambda>s b t d. even (s + t + d)"]
      tiny_head_wf tiny_gpt_wf v s e
    unfolding two by blast
qed

text \<open>
  C2 (as amended). No constructor checks that \<open>num_heads\<close> divides \<open>model_dim\<close>:
  \<^verbatim>\<open>MultiHeadedSelfAttention.__init__\<close> takes \<open>model_dim // num_heads\<close>, the floor,
  as the head size. For every configuration of non-negative sizes, divisible or not,
  the construction succeeds; when the (positive) \<open>num_heads\<close> does not divide
  \<open>model_dim\<close> (and there is at least one block) the error comes later: every forward
  pass on a valid context raises RuntimeError, at the output projection of the
  attention block of the first transformer block.
\<close>

theorem indivisible_heads_fail_in_forward:
  "0 \<le> vocab_size \<and> 0 \<le> context_length \<and> 0 \<le> model_dim \<and> 0 < num_blocks \<and>
   0 < num_heads \<and> \<not> num_heads dvd model_dim \<longrightarrow>
   (\<exists>m. GPT_init vocab_size context_length model_dim num_blocks num_heads g = Inr m \<and>
        vocab_size_of m = nat vocab_size \<and> context_length_of m = nat context_length \<and>
        (\<forall>training keep c. valid_context m c \<longrightarrow> GPT_forward m training keep c = Inl RuntimeError))"
proof
  assume a: "0 \<le> vocab_size \<and> 0 \<le> context_length \<and> 0 \<le> model_dim \<and> 0 < num_blocks \<and>
   0 < num_heads \<and> \<not> num_heads dvd model_dim"
  then have nn: "0 \<le> vocab_size" "0 \<le> context_length" "0 \<le> model_dim" by simp_all
  from GPT_init_built [OF nn, of num_blocks num_heads g]
  obtain m where m: "GPT_init vocab_size context_length model_dim num_blocks num_heads g = Inr m"
    "Embedding_wf (nat vocab_size) (nat model_dim) (token_embedding m)"
    "Embedding_wf (nat context_length) (nat model_dim) (pos_embedding m)"
    "length (transformer_blocks m) = nat num_blocks"
    "list_all (TransformerBlock_built (nat model_dim) (nat num_heads) (nat (model_dim div num_heads)))
       (transformer_blocks m)"
    by blast
  have ne: "transformer_blocks m \<noteq> []" using m(4) a by auto
  have mis: "nat num_heads * nat (model_dim div num_heads) \<noteq> nat model_dim"
    using heads_mismatch a by simp
  have "GPT_forward m training keep c = Inl RuntimeError" if "valid_context m c" for training keep c
    by (rule GPT_forward_mismatch [OF m(2,3) ne m(5) mis that])
  moreover have "vocab_size_of m = nat vocab_size" "context_length_of m = nat context_length"
    using m(2,3) by (simp_all add: Embedding_wf_def vocab_size_of_def context_length_of_def)
  ultimately show "\<exists>m. GPT_init vocab_size context_length model_dim num_blocks num_heads g = Inr m \<and>
        vocab_size_of m = nat vocab_size \<and> context_length_of m = nat context_length \<and>
        (\<forall>training keep c. valid_context m c \<longrightarrow> GPT_forward m training keep c = Inl RuntimeError)"
    using m(1) by blast
qed

theorem indivisible_heads_fail_in_forward_witness:
  "(0::int) \<le> 2 \<and> (0::int) \<le> 3 \<and> (0::int) < 1 \<and> (0::int) < 2 \<and> \<not> (2::int) dvd 3 \<and>
   (\<exists>m. GPT_init 2 3 3 1 2 (\<lambda>p. 0) = Inr m \<and> valid_context m tiny_c1 \<and>
        GPT_forward m False (\<lambda>s b t d. True) tiny_c1 = Inl RuntimeError)"
proof -
  have h: "(0::int) \<le> 2 \<and> (0::int) \<le> 3 \<and> (0::int) \<le> 3 \<and> (0::int) < 1 \<and> (0::int) < 2 \<and>
    \<not> (2::int) dvd 3"
    by simp
  from indivisible_heads_fail_in_forward [of 2 3 3 1 2 "\<lambda>p. 0"] h
  obtain m where m: "GPT_init 2 3 3 1 2 (\<lambda>p. 0) = Inr m" "vocab_size_of m = nat 2"
    "context_length_of m = nat 3"
    "\<forall>training keep c. valid_context m c \<longrightarrow> GPT_forward m training keep c = Inl RuntimeError"
    by blast
  have v: "valid_context m tiny_c1"
    using m(2,3) by (simp add: valid_context_def wf2_def tiny_c1_def in_vocab_def)
  then have "GPT_forward m False (\<lambda>s b t d. True) tiny_c1 = Inl RuntimeError"
    using m(4) by blast
  then show ?thesis using m(1) v by auto
qed

theorem construction_succeeds_counterexample:
  "map_sum id
     (\<lambda>m. map (\<lambda>b. (map (\<lambda>h. out_features (value_layer h)) (attention_heads (mhsa b)),
                    in_features (compute (mhsa b))))
            (transformer_blocks m))
     (GPT_init 2 3 3 1 2 (\<lambda>p. 0))
   = Inr [([1, 1], 3)]"
  by (simp add: GPT_init_def Embedding_init_def TransformerBlock_init_def
      MultiHeadedSelfAttention_init_def SingleHeadAttention_init_def Linear_init_def
      VanillaNeuralNetwork_init_def LayerNorm_init_def sub_def eval_nat_numeral)

text \<open>
  C3 (as amended). \<^verbatim>\<open>generate\<close> is written for batch size 1: it reads the drawn
  index with \<^verbatim>\<open>next_char.item()\<close> and returns one string. For a starting context
  of any other batch size and \<open>new_chars > 0\<close> it raises. Whenever it returns, it has
  drawn one index at each step, a \<^verbatim>\<open>next_char\<close> tensor of shape (1, 1), and
  \<open>new_chars\<close> indices in all (\<open>nat new_chars\<close>: a count), and the result holds the
  characters of the drawn indices in order. It does return, with every drawn index
  below the vocabulary size \<open>V\<close>, under these conditions: \<open>context_length \<ge> 1\<close> and
  \<open>V \<ge> 1\<close>; the starting context has one row, at least one token and every index in
  \<open>[0, V)\<close>; the model returns logits of shape (1, T, V) on every such context of at
  most \<open>context_length\<close> tokens; the sampler returns a category of the distribution it
  is given; and every index in \<open>[0, V)\<close> is a key of \<^verbatim>\<open>int_to_char\<close>. Without
  them a step can raise (a missing key, for one, gives KeyError).
\<close>

theorem generate_draws:
  "(length (data2 ctx) \<noteq> 1 \<and> 0 < new_chars
    \<longrightarrow> (\<exists>e. generate model new_chars ctx context_length i2c sample g = Inl e))
   \<and>
   (generate_run model new_chars ctx context_length i2c sample g = Inr st
    \<longrightarrow> length (draws st) = nat new_chars \<and>
        (\<forall>d \<in> set (draws st). cols2 d = 1 \<and> (\<exists>i. data2 d = [[i]])) \<and>
        res st = map (\<lambda>d. the (i2c (drawn_index d))) (draws st))
   \<and>
   (serves model (nat context_length) V \<and> 0 < context_length \<and> 0 < V \<and> categorical sample \<and>
    (\<forall>i. in_vocab V i \<longrightarrow> i2c i \<noteq> None) \<and> single_row V ctx
    \<longrightarrow> (\<exists>st. generate_run model new_chars ctx context_length i2c sample g = Inr st \<and>
              length (draws st) = nat new_chars \<and>
              (\<forall>d \<in> set (draws st). cols2 d = 1 \<and> (\<exists>i. data2 d = [[i]] \<and> in_vocab V i)) \<and>
              res st = map (\<lambda>d. the (i2c (drawn_index d))) (draws st)))"
proof (intro conjI impI)
  assume a: "length (data2 ctx) \<noteq> 1 \<and> 0 < new_chars"
  let ?st0 = "\<lparr>running_context = ctx, res = [], rng = g, calls = [], draws = []\<rparr>"
  obtain k where k: "nat new_chars = Suc k" using a by (cases "nat new_chars") auto
  obtain e where "generate_step model context_length i2c sample ?st0 = Inl e"
    using generate_step_not_single [of ?st0 model context_length i2c sample] a by auto
  then show "\<exists>e. generate model new_chars ctx context_length i2c sample g = Inl e"
    by (simp add: generate_def generate_run_def k)
next
  assume r: "generate_run model new_chars ctx context_length i2c sample g = Inr st"
  let ?st0 = "\<lparr>running_context = ctx, res = [], rng = g, calls = [], draws = []\<rparr>"
  from r have "generate_loop (nat new_chars) model context_length i2c sample ?st0 = Inr st"
    by (simp add: generate_run_def)
  from generate_loop_draws [OF this]
  obtain ds where ds: "draws st = ds" "length ds = nat new_chars"
    "\<forall>d \<in> set ds. cols2 d = 1 \<and> (\<exists>i. data2 d = [[i]])"
    "res st = map (\<lambda>d. the (i2c (drawn_index d))) ds"
    by auto
  show "length (draws st) = nat new_chars" using ds by simp
  show "\<forall>d \<in> set (draws st). cols2 d = 1 \<and> (\<exists>i. data2 d = [[i]])" using ds by simp
  show "res st = map (\<lambda>d. the (i2c (drawn_index d))) (draws st)" using ds by simp
next
  assume a: "serves model (nat context_length) V \<and> 0 < context_length \<and> 0 < V \<and>
    categorical sample \<and> (\<forall>i. in_vocab V i \<longrightarrow> i2c i \<noteq> None) \<and> single_row V ctx"
  let ?st0 = "\<lparr>running_context = ctx, res = [], rng = g, calls = [], draws = []\<rparr>"
  have "\<exists>st' ds. generate_loop (nat new_chars) model context_length i2c sample ?st0 = Inr st' \<and>
           single_row V (running_context st') \<and>
           res st' = res ?st0 @ map (\<lambda>d. the (i2c (drawn_index d))) ds \<and>
           draws st' = draws ?st0 @ ds \<and> length ds = nat new_chars \<and>
           (\<forall>d \<in> set ds. cols2 d = 1 \<and> (\<exists>i. data2 d = [[i]] \<and> in_vocab V i))"
    by (rule generate_loop_single) (use a in simp_all)
  then show "\<exists>st. generate_run model new_chars ctx context_length i2c sample g = Inr st \<and>
              length (draws st) = nat new_chars \<and>
              (\<forall>d \<in> set (draws st). cols2 d = 1 \<and> (\<exists>i. data2 d = [[i]] \<and> in_vocab V i)) \<and>
              res st = map (\<lambda>d. the (i2c (drawn_index d))) (draws st)"
    by (auto simp: generate_run_def)
qed

theorem generate_draws_witness:
  "length (data2 tiny_pair) \<noteq> 1 \<and> (0::int) < 2 \<and>
   (\<exists>e. generate (GPT_forward tiny_gpt False (\<lambda>s b t d. True)) 2 tiny_pair 3 int_to_char
           always_first () = Inl e) \<and>
   serves (GPT_forward tiny_gpt False (\<lambda>s b t d. True)) (nat 3) 2 \<and> (0::int) < 3 \<and>
   (0::nat) < 2 \<and> categorical always_first \<and> single_row 2 tiny_c1 \<and>
   int_to_char 0 \<noteq> None \<and> int_to_char 1 \<noteq> None \<and>
   (\<exists>st. generate_run (GPT_forward tiny_gpt False (\<lambda>s b t d. True)) 2 tiny_c1 3 int_to_char
            always_first () = Inr st \<and> length (draws st) = nat 2 \<and>
          list_all (\<lambda>d. cols2 d = 1 \<and> length (data2 d) = 1) (draws st) \<and>
          res st = map (\<lambda>d. the (int_to_char (drawn_index d))) (draws st))"
proof -
  have srv: "serves (GPT_forward tiny_gpt False (\<lambda>s b t d. True)) (nat 3) 2"
    using tiny_serves by simp
  have keys: "\<forall>i. in_vocab 2 i \<longrightarrow> int_to_char i \<noteq> None"
    using int_to_char_keys by blast
  have k01: "int_to_char 0 \<noteq> None" "int_to_char 1 \<noteq> None"
    using int_to_char_keys by (simp_all add: in_vocab_def)
  have p: "length (data2 tiny_pair) \<noteq> 1" by (simp add: tiny_pair_def)
  have one: "\<exists>e. generate (GPT_forward tiny_gpt False (\<lambda>s b t d. True)) 2 tiny_pair 3 int_to_char
           always_first () = Inl e"
    using generate_draws [where model = "GPT_forward tiny_gpt False (\<lambda>s b t d. True)"
        and context_length = 3 and sample = always_first and ?i2c.0 = int_to_char
        and ctx = tiny_pair and new_chars = 2 and g = "()"] p
    by simp
  have pos: "(0::int) < 3" "(0::nat) < 2" by simp_all
  have "\<exists>st. generate_run (GPT_forward tiny_gpt False (\<lambda>s b t d. True)) 2 tiny_c1 3
      int_to_char always_first () = Inr st"
    using generate_draws [where model = "GPT_forward tiny_gpt False (\<lambda>s b t d. True)"
        and context_length = 3 and V = 2 and sample = always_first and ?i2c.0 = int_to_char
        and ctx = tiny_c1 and new_chars = 2 and g = "()"]
      srv keys categorical_always_first tiny_c1_single pos
    by blast
  then obtain st where st: "generate_run (GPT_forward tiny_gpt False (\<lambda>s b t d. True)) 2 tiny_c1 3
      int_to_char always_first () = Inr st"
    by blast
  have u: "length (draws st) = nat 2 \<and>
        (\<forall>d \<in> set (draws st). cols2 d = 1 \<and> (\<exists>i. data2 d = [[i]])) \<and>
        res st = map (\<lambda>d. the (int_to_char (drawn_index d))) (draws st)"
    using generate_draws [where model = "GPT_forward tiny_gpt False (\<lambda>s b t d. True)"
        and context_length = 3 and sample = always_first and ?i2c.0 = int_to_char
        and ctx = tiny_c1 and new_chars = 2 and g = "()" and st = st] st
    by blast
  then have "list_all (\<lambda>d. cols2 d = 1 \<and> length (data2 d) = 1) (draws st)"
    by (auto simp: list_all_iff)
  then have two: "\<exists>st. generate_run (GPT_forward tiny_gpt False (\<lambda>s b t d. True)) 2 tiny_c1 3
      int_to_char always_first () = Inr st \<and> length (draws st) = nat 2 \<and>
      list_all (\<lambda>d. cols2 d = 1 \<and> length (data2 d) = 1) (draws st) \<and>
      res st = map (\<lambda>d. the (int_to_char (drawn_index d))) (draws st)"
    using st u by blast
  show ?thesis
    using one two srv k01 categorical_always_first tiny_c1_single p by simp
qed

theorem generate_batch_counterexample:
  "generate (GPT_forward tiny_gpt False (\<lambda>s b t d. True)) 1 tiny_pair 3 int_to_char
     always_first () = Inl RuntimeError"
proof -
  let ?st0 = "\<lparr>running_context = tiny_pair, res = [], rng = (), calls = [], draws = []\<rparr>"
  let ?c' = "slice_cols (- 3) tiny_pair"
  have c': "?c' = tiny_pair"
    by (simp add: slice_cols_def slice_start_def tiny_pair_def)
  have v: "valid_context tiny_gpt tiny_pair"
    by (simp add: valid_context_def wf2_def tiny_pair_def tiny_gpt_dims in_vocab_def)
  from GPT_forward_valid [OF tiny_gpt_wf v, of False "\<lambda>s b t d. True"]
  obtain p where p: "GPT_forward tiny_gpt False (\<lambda>s b t d. True) tiny_pair = Inr p"
    "has_shape3 (length (data2 tiny_pair)) (cols2 tiny_pair) 2 p"
    by (auto simp: tiny_gpt_dims)
  have "generate_step (GPT_forward tiny_gpt False (\<lambda>s b t d. True)) 3 int_to_char always_first ?st0
      = Inl RuntimeError"
    by (rule generate_step_batch [where c' = tiny_pair and p = p and V = 2])
       (use c' p in \<open>simp_all add: tiny_pair_def\<close>)
  then show ?thesis by (simp add: generate_def generate_run_def)
qed

text \<open>
  C4 (as amended). The running context is not kept untruncated: each step first cuts
  the variable \<^verbatim>\<open>context\<close> itself to its last \<open>context_length\<close> tokens and then
  appends the drawn index to it. For \<open>context_length \<ge> 1\<close>, after \<open>k \<ge> 1\<close> steps
  from a context of length \<open>T0\<close> its length is \<open>min (T0 + k) (context_length + 1)\<close>:
  it is \<open>T0 + k\<close> only as long as that does not exceed \<open>context_length + 1\<close>.
\<close>

theorem running_context_length:
  "0 < context_length \<and> generate_loop k model context_length i2c sample st0 = Inr st \<longrightarrow>
   cols2 (running_context st) =
     (if k = 0 then cols2 (running_context st0)
      else min (cols2 (running_context st0) + k) (nat context_length + 1))"
  using generate_loop_cols [of context_length k model i2c sample st0 st] by blast

theorem running_context_length_witness:
  "(0::int) < 2 \<and>
   (\<exists>st. generate_loop 2 (GPT_forward tiny_gpt False (\<lambda>s b t d. True)) 2 int_to_char always_first
            \<lparr>running_context = tiny_c1, res = [], rng = (), calls = [], draws = []\<rparr> = Inr st \<and>
          cols2 (running_context st) = 3)"
proof -
  obtain st where st: "generate_loop 2 (GPT_forward tiny_gpt False (\<lambda>s b t d. True)) 2 int_to_char
      always_first \<lparr>running_context = tiny_c1, res = [], rng = (), calls = [], draws = []\<rparr> = Inr st"
    using tiny_run [of 2 2] by auto
  have "cols2 (running_context st) = 3"
    using running_context_length [of 2 2 "GPT_forward tiny_gpt False (\<lambda>s b t d. True)"
        int_to_char always_first
        "\<lparr>running_context = tiny_c1, res = [], rng = (), calls = [], draws = []\<rparr>" st] st
    by (simp add: tiny_c1_def)
  then show ?thesis using st by simp
qed

theorem running_context_counterexample:
  "map_sum id (\<lambda>st. cols2 (running_context st) = cols2 tiny_c1 + 2)
     (generate_run (GPT_forward tiny_gpt False (\<lambda>s b t d. True)) 2 tiny_c1 2 int_to_char
        always_first ())
   = Inr False"
proof -
  obtain st where st: "generate_loop 2 (GPT_forward tiny_gpt False (\<lambda>s b t d. True)) 2 int_to_char
      always_first \<lparr>running_context = tiny_c1, res = [], rng = (), calls = [], draws = []\<rparr> = Inr st"
    using tiny_run [of 2 2] by auto
  have "cols2 (running_context st) = 3"
    using generate_loop_cols [OF _ st] by (simp add: tiny_c1_def)
  then show ?thesis using st by (simp add: generate_run_def tiny_c1_def)
qed

text \<open>
  C5. The window passed to the model is \<^verbatim>\<open>context[:, -context_length:]\<close>. For
  \<open>context_length \<ge> 1\<close> it has \<open>min (current length) context_length\<close> tokens
  (\<open>generate_loop_calls\<close>). With \<open>context_length = 0\<close> the slice is
  \<^verbatim>\<open>context[:, 0:]\<close>, the whole context: here the model is invoked on the 3 tokens of
  the starting context, not on \<open>min 3 0 = 0\<close> tokens.
\<close>

theorem window_zero_context_length:
  "map_sum id (\<lambda>st. map cols2 (calls st))
     (generate_run (GPT_forward tiny_gpt False (\<lambda>s b t d. True)) 1 tiny_c1 0 int_to_char
        always_first ())
   = Inr [3]"
proof -
  let ?m = "GPT_forward tiny_gpt False (\<lambda>s b t d. True)"
  let ?st0 = "\<lparr>running_context = tiny_c1, res = [], rng = (), calls = [], draws = []\<rparr>"
  have c': "slice_cols (- 0) (running_context ?st0) = tiny_c1"
    by (simp add: slice_cols_def slice_start_def)
  have v: "valid_context tiny_gpt tiny_c1"
    by (simp add: valid_context_def wf2_def tiny_c1_def tiny_gpt_dims in_vocab_def)
  from GPT_forward_valid [OF tiny_gpt_wf v, of False "\<lambda>s b t d. True"]
  obtain p where p: "?m tiny_c1 = Inr p" "has_shape3 1 (cols2 tiny_c1) 2 p"
    by (auto simp: tiny_gpt_dims tiny_c1_def)
  have "\<exists>st' i. generate_step ?m 0 int_to_char always_first ?st0 = Inr st' \<and>
           single_row 2 (running_context st') \<and>
           draws st' = draws ?st0 @ [\<lparr>cols2 = 1, data2 = [[i]]\<rparr>] \<and>
           res st' = res ?st0 @ [the (int_to_char i)] \<and> in_vocab 2 i"
    by (rule generate_step_single [where c' = tiny_c1 and p = p])
       (use c' p tiny_c1_single categorical_always_first int_to_char_keys in simp_all)
  then obtain st' where st': "generate_step ?m 0 int_to_char always_first ?st0 = Inr st'"
    by blast
  have "calls st' = [tiny_c1]"
    using generate_step_cols(2) [OF st'] c' by simp
  then show ?thesis
    using st' by (simp add: generate_run_def tiny_c1_def)
qed

text \<open>
  C7. The forward pass of a block is the pre-normalization residual composition: the
  attention sub-layer reads \<open>LayerNorm_1(x)\<close> and its output is added to the
  un-normalized \<open>x\<close>, giving \<open>x'\<close>; the feed-forward sub-layer reads
  \<open>LayerNorm_2(x')\<close> and its output is added to the un-normalized \<open>x'\<close>. For a
  well-formed block and an input of shape (B, T, model_dim) every step succeeds and the
  output has the shape of the input.
\<close>

theorem TransformerBlock_pre_norm_residual:
  "TransformerBlock_wf d blk \<and> has_shape3 B T d x \<longrightarrow>
   (\<exists>n1 a x' n2 f x''.
      LayerNorm_forward (layer_norm_one blk) x = Inr n1 \<and>
      MultiHeadedSelfAttention_forward (mhsa blk) training k1 n1 = Inr a \<and>
      data3 x' = map2 (map2 (map2 (+))) (data3 x) (data3 a) \<and>
      LayerNorm_forward (layer_norm_two blk) x' = Inr n2 \<and>
      VanillaNeuralNetwork_forward (vanilla_nn blk) training k2 n2 = Inr f \<and>
      data3 x'' = map2 (map2 (map2 (+))) (data3 x') (data3 f) \<and>
      TransformerBlock_forward blk training k1 k2 x = Inr x'' \<and>
      has_shape3 B T d x' \<and> has_shape3 B T d x'')"
proof
  assume "TransformerBlock_wf d blk \<and> has_shape3 B T d x"
  then have wf: "TransformerBlock_wf d blk" and x: "has_shape3 B T d x" by simp_all
  from TransformerBlock_forward_steps [OF wf x, of training k1 k2]
  obtain n1 a x' n2 f x'' where s:
    "LayerNorm_forward (layer_norm_one blk) x = Inr n1"
    "MultiHeadedSelfAttention_forward (mhsa blk) training k1 n1 = Inr a"
    "add3 x a = Inr x'"
    "LayerNorm_forward (layer_norm_two blk) x' = Inr n2"
    "VanillaNeuralNetwork_forward (vanilla_nn blk) training k2 n2 = Inr f"
    "add3 x' f = Inr x''"
    "TransformerBlock_forward blk training k1 k2 x = Inr x''"
    "has_shape3 B T d x'" "has_shape3 B T d x''"
    by blast
  show "\<exists>n1 a x' n2 f x''.
      LayerNorm_forward (layer_norm_one blk) x = Inr n1 \<and>
      MultiHeadedSelfAttention_forward (mhsa blk) training k1 n1 = Inr a \<and>
      data3 x' = map2 (map2 (map2 (+))) (data3 x) (data3 a) \<and>
      LayerNorm_forward (layer_norm_two blk) x' = Inr n2 \<and>
      VanillaNeuralNetwork_forward (vanilla_nn blk) training k2 n2 = Inr f \<and>
      data3 x'' = map2 (map2 (map2 (+))) (data3 x') (data3 f) \<and>
      TransformerBlock_forward blk training k1 k2 x = Inr x'' \<and>
      has_shape3 B T d x' \<and> has_shape3 B T d x''"
    using s add3_data [OF s(3)] add3_data [OF s(6)] by blast
qed

theorem TransformerBlock_pre_norm_residual_witness:
  "TransformerBlock_wf 2 tiny_block \<and> has_shape3 1 3 2 tiny_x \<and>
   (\<exists>n1 a x' n2 f x''.
      LayerNorm_forward (layer_norm_one tiny_block) tiny_x = Inr n1 \<and>
      MultiHeadedSelfAttention_forward (mhsa tiny_block) False (\<lambda>b t d. True) n1 = Inr a \<and>
      data3 x' = map2 (map2 (map2 (+))) (data3 tiny_x) (data3 a) \<and>
      LayerNorm_forward (layer_norm_two tiny_block) x' = Inr n2 \<and>
      VanillaNeuralNetwork_forward (vanilla_nn tiny_block) False (\<lambda>b t d. True) n2 = Inr f \<and>
      data3 x'' = map2 (map2 (map2 (+))) (data3 x') (data3 f) \<and>
      TransformerBlock_forward tiny_block False (\<lambda>b t d. True) (\<lambda>b t d. True) tiny_x = Inr x'' \<and>
      has_shape3 1 3 2 x' \<and> has_shape3 1 3 2 x'')"
proof -
  have s: "has_shape3 1 3 2 tiny_x"
    by (simp add: has_shape3_def wf3_def tiny_x_def)
  show ?thesis
    using TransformerBlock_pre_norm_residual [of 2 tiny_block 1 3 tiny_x False "\<lambda>b t d. True"
        "\<lambda>b t d. True"] tiny_block_wf s
    by blast
qed

text \<open>
  C8. \<^verbatim>\<open>GPT.forward\<close> raises IndexError, from the embedding lookups, when the
  context is longer than \<open>context_length\<close> or holds an index outside
  \<open>[0, vocab_size)\<close>; on a valid context of shape (B, T) a well-formed model returns
  logits of shape (B, T, vocab_size).
\<close>

theorem GPT_forward_contract:
  "(context_length_of m < cols2 c \<or> \<not> list_all (list_all (in_vocab (vocab_size_of m))) (data2 c)
    \<longrightarrow> GPT_forward m training keep c = Inl IndexError)
   \<and>
   (GPT_wf m \<and> valid_context m c
    \<longrightarrow> (\<exists>l. GPT_forward m training keep c = Inr l \<and>
             has_shape3 (length (data2 c)) (cols2 c) (vocab_size_of m) l))"
  using GPT_forward_invalid [of m c training keep] GPT_forward_valid [of m c training keep]
  by blast

theorem GPT_forward_contract_witness:
  "context_length_of tiny_gpt < cols2 tiny_long \<and>
   GPT_forward tiny_gpt False (\<lambda>s b t d. True) tiny_long = Inl IndexError \<and>
   \<not> list_all (list_all (in_vocab (vocab_size_of tiny_gpt))) (data2 tiny_bad) \<and>
   GPT_forward tiny_gpt False (\<lambda>s b t d. True) tiny_bad = Inl IndexError \<and>
   GPT_wf tiny_gpt \<and> valid_context tiny_gpt tiny_c1 \<and>
   (\<exists>l. GPT_forward tiny_gpt False (\<lambda>s b t d. True) tiny_c1 = Inr l \<and> has_shape3 1 3 2 l)"
proof -
  have v: "valid_context tiny_gpt tiny_c1"
    by (simp add: valid_context_def wf2_def tiny_gpt_def context_length_of_def
        vocab_size_of_def in_vocab_def tiny_c1_def)
  have l: "context_length_of tiny_gpt < cols2 tiny_long"
    by (simp add: tiny_gpt_def context_length_of_def tiny_long_def)
  have b: "\<not> list_all (list_all (in_vocab (vocab_size_of tiny_gpt))) (data2 tiny_bad)"
    by (simp add: tiny_gpt_def vocab_size_of_def tiny_bad_def in_vocab_def)
  have d: "length (data2 tiny_c1) = 1" "cols2 tiny_c1 = 3" "vocab_size_of tiny_gpt = 2"
    by (simp_all add: tiny_c1_def tiny_gpt_def vocab_size_of_def)
  show ?thesis
    using GPT_forward_contract [of tiny_gpt tiny_long False "\<lambda>s b t d. True"]
      GPT_forward_contract [of tiny_gpt tiny_bad False "\<lambda>s b t d. True"]
      GPT_forward_contract [of tiny_gpt tiny_c1 False "\<lambda>s b t d. True"]
      tiny_gpt_wf v l b
    unfolding d by blast
qed

text \<open>
  C9. Determinism of the forward pass. In inference mode (\<open>training = False\<close>, what
  \<^verbatim>\<open>model.eval()\<close> sets) the logits of \<^verbatim>\<open>GPT.forward\<close> do not depend on the
  random draws of the dropout layers: for fixed parameters and a fixed context, two
  invocations, whatever the random generator gives them, return the same result.
\<close>

theorem GPT_forward_deterministic:
  "GPT_forward m False keep context = GPT_forward m False keep' context"
  unfolding GPT_forward_def
  using Sequential_forward_eval [of "transformer_blocks m" keep 0 _ keep' 0]
  by simp

text \<open>
  C10. For batch size 1, \<^verbatim>\<open>generate\<close> returns a string of exactly \<open>new_chars\<close>
  characters (\<open>nat new_chars\<close>: a count; \<^verbatim>\<open>range\<close> of a negative number is empty).
  Whenever it returns, the string has this length. It does return when the starting
  context has one row with at least one token, the model serves the contexts of up to
  \<open>context_length\<close> tokens, the sampler draws a category of its distribution, and every
  index below the vocabulary size is a key of \<^verbatim>\<open>int_to_char\<close>. With
  \<open>new_chars = 0\<close> it returns the empty string and the model is not invoked, whatever
  the model and the context are.
\<close>

theorem generate_length:
  "(generate model new_chars ctx context_length i2c sample g = Inr s \<longrightarrow> length s = nat new_chars)
   \<and>
   (serves model (nat context_length) V \<and> 0 < context_length \<and> 0 < V \<and> categorical sample \<and>
    (\<forall>i. in_vocab V i \<longrightarrow> i2c i \<noteq> None) \<and> single_row V ctx
    \<longrightarrow> (\<exists>s'. generate model new_chars ctx context_length i2c sample g = Inr s' \<and>
              length s' = nat new_chars))
   \<and>
   generate model 0 ctx context_length i2c sample g = Inr [] \<and>
   generate_run model 0 ctx context_length i2c sample g
     = Inr \<lparr>running_context = ctx, res = [], rng = g, calls = [], draws = []\<rparr>"
proof (intro conjI impI)
  assume "generate model new_chars ctx context_length i2c sample g = Inr s"
  then obtain st where
    "generate_loop (nat new_chars) model context_length i2c sample
       \<lparr>running_context = ctx, res = [], rng = g, calls = [], draws = []\<rparr> = Inr st"
    "s = res st"
    by (auto simp: generate_def generate_run_def and_then_eq_Inr)
  then show "length s = nat new_chars"
    using generate_loop_res by fastforce
next
  assume a: "serves model (nat context_length) V \<and> 0 < context_length \<and> 0 < V \<and>
    categorical sample \<and> (\<forall>i. in_vocab V i \<longrightarrow> i2c i \<noteq> None) \<and> single_row V ctx"
  let ?st0 = "\<lparr>running_context = ctx, res = [], rng = g, calls = [], draws = []\<rparr>"
  have "\<exists>st' ds. generate_loop (nat new_chars) model context_length i2c sample ?st0 = Inr st' \<and>
           single_row V (running_context st') \<and>
           res st' = res ?st0 @ map (\<lambda>d. the (i2c (drawn_index d))) ds \<and>
           draws st' = draws ?st0 @ ds \<and> length ds = nat new_chars \<and>
           (\<forall>d \<in> set ds. cols2 d = 1 \<and> (\<exists>i. data2 d = [[i]] \<and> in_vocab V i))"
    by (rule generate_loop_single) (use a in simp_all)
  then obtain st' where
    "generate_loop (nat new_chars) model context_length i2c sample ?st0 = Inr st'"
    "length (res st') = nat new_chars"
    by auto
  then show "\<exists>s'. generate model new_chars ctx context_length i2c sample g = Inr s' \<and>
              length s' = nat new_chars"
    by (simp add: generate_def generate_run_def)
next
  show "generate model 0 ctx context_length i2c sample g = Inr []"
    by (simp add: generate_def generate_run_def)
  show "generate_run model 0 ctx context_length i2c sample g
     = Inr \<lparr>running_context = ctx, res = [], rng = g, calls = [], draws = []\<rparr>"
    by (simp add: generate_run_def)
qed

theorem generate_length_witness:
  "serves (GPT_forward tiny_gpt False (\<lambda>s b t d. True)) (nat 3) 2 \<and> (0::int) < 3 \<and> (0::nat) < 2 \<and>
   categorical always_first \<and> single_row 2 tiny_c1 \<and>
   int_to_char 0 \<noteq> None \<and> int_to_char 1 \<noteq> None \<and>
   (\<exists>s'. generate (GPT_forward tiny_gpt False (\<lambda>s b t d. True)) 5 tiny_c1 3 int_to_char
            always_first () = Inr s' \<and> length s' = nat 5)"
proof -
  have srv: "serves (GPT_forward tiny_gpt False (\<lambda>s b t d. True)) (nat 3) 2"
    using tiny_serves by simp
  have keys: "\<forall>i. in_vocab 2 i \<longrightarrow> int_to_char i \<noteq> None"
    using int_to_char_keys by blast
  have k01: "int_to_char 0 \<noteq> None" "int_to_char 1 \<noteq> None"
    using int_to_char_keys by (simp_all add: in_vocab_def)
  show ?thesis
    using generate_length [where model = "GPT_forward tiny_gpt False (\<lambda>s b t d. True)"
        and context_length = 3 and V = 2 and sample = always_first and ?i2c.0 = int_to_char
        and ctx = tiny_c1 and new_chars = 5 and g = "()"]
      srv keys k01 categorical_always_first tiny_c1_single
    by simp
qed

end
